theory Spec2Isabelle
  imports Complex_Main "HOL-Library.Word"
begin

section \<open>The EMNIST lab notebook: data model\<close>

text \<open>
  The program is one Jupyter notebook, \<^verbatim>\<open>lab_emnist_partial.ipynb\<close>. Its executable
  code is the download cell (\<^verbatim>\<open>download_file\<close> and the statements after it), the
  function \<^verbatim>\<open>load_emnist\<close>, and the cells marked \<^verbatim>\<open># TODO n\<close>, which hold comments
  and a few bindings. The notebook runs against a file system, a network, standard
  output and the kernel's global variables; the model threads one record of these
  through every operation. What the third-party libraries decide (the HTTP exchange,
  whether a file can be created, the decoding of a zip archive and of a MATLAB file)
  is taken as a parameter, the record \<open>env\<close>.

  An exception of Python is a value of type \<open>error\<close>. A procedure returns
  \<open>error option \<times> state\<close>: \<open>None\<close> when it returned normally, \<open>Some e\<close> when \<open>e\<close>
  was raised, together with the state reached, since the effects made before an
  exception stay.
\<close>

type_synonym byte = "8 word"

datatype node = Dir | File "byte list"

datatype error =
    NameError string
  | ConnectionError
  | ValueError
  | OSError
  | BadZipFile
  | KeyError string
  | IndexError
  | TypeError
  | AttributeError
  | ChunkedEncodingError

text \<open>Values a global variable of the kernel can hold.\<close>

datatype pyval =
    PInt int
  | PFloat rat
  | PBool bool
  | PStr string
  | PList "pyval list"
  | PArray "pyval list"
  | PMatrix "rat list list"
  | PModule string
  | PFunction string
  | PZipFile string

record state =
  fs :: "string \<rightharpoonup> node"
  out :: "string list"
  requests :: "string list"
  vars :: "string \<rightharpoonup> pyval"
  loaded :: "string list"

text \<open>
  \<open>fs\<close> maps a path (relative to the working directory) to what is there, \<open>out\<close> is
  the list of lines printed so far, \<open>requests\<close> the URLs fetched so far, \<open>vars\<close> the
  kernel's globals and \<open>loaded\<close> the modules imported by the cells modelled here.
\<close>

text \<open>
  The value of the \<^verbatim>\<open>content-length\<close> header as \<^verbatim>\<open>int(r.headers.get('content-length', 0))\<close>
  reads it: absent (the default \<open>0\<close> is used), a number, or text that \<^verbatim>\<open>int\<close>
  rejects with a ValueError.
\<close>

datatype content_length = NoHeader | Length int | Unparsable

record response =
  header :: content_length
  blocks :: "byte list list"
  stream_error :: "error option"

text \<open>
  \<open>blocks\<close> is the sequence \<^verbatim>\<open>r.iter_content(block_size)\<close> yields: the body as it
  arrived, which may be shorter than the header announced. \<open>stream_error\<close> is the
  exception the iterator raises when asked for the block after the last one, if any:
  a connection that breaks, or a body that ends before the announced length where the
  library checks that (ChunkedEncodingError); \<open>None\<close> when the iterator just ends.
\<close>

datatype ndarray =
    Cells "ndarray list"
  | Matrix "rat list list"
  | Vector "rat list"
  | Scalar rat
  | IntVector "int list"

text \<open>
  What \<^verbatim>\<open>scipy.io.loadmat\<close> hands back under a key: \<open>Cells\<close> is one axis of a struct
  array or the field tuple of one of its records (the source indexes both by
  position), \<open>Matrix\<close> a two-dimensional numeric array as a list of rows, \<open>Vector\<close>
  and \<open>Scalar\<close> what indexing a matrix yields, \<open>IntVector\<close> the result of
  \<^verbatim>\<open>astype(int)\<close> on a flattened array.
\<close>

record env =
  http_get :: "string \<Rightarrow> error + response"
  open_wb_error :: "string \<Rightarrow> error option"
  write_error :: "string \<Rightarrow> byte list \<Rightarrow> byte list \<Rightarrow> error option"
  unzip :: "byte list \<Rightarrow> error + (string \<times> node) list"
  loadmat :: "string \<Rightarrow> (string \<rightharpoonup> node) \<Rightarrow> error + (string \<rightharpoonup> ndarray)"

text \<open>
  \<open>http_get url\<close> is the outcome of \<^verbatim>\<open>requests.get(url, stream=True)\<close>;
  \<open>open_wb_error p\<close> is the exception \<^verbatim>\<open>open(p, 'wb')\<close> raises for a path that does not
  exist yet, if any (a missing parent directory, no permission);
  \<open>write_error p c data\<close> is the exception \<^verbatim>\<open>f.write(data)\<close> raises on the file at \<open>p\<close>
  that holds \<open>c\<close>, if any (a full disk); \<open>unzip\<close> lists the members of an archive,
  each under its path without a trailing separator; \<open>loadmat p files\<close> is the outcome of
  \<^verbatim>\<open>scipy.io.loadmat(p)\<close> on the file system \<open>files\<close>: a dictionary, or the exception
  raised (no such file, not a MATLAB file).
\<close>

section \<open>Small operations on the state\<close>

definition print_line :: "string \<Rightarrow> state \<Rightarrow> state" where
  "print_line l s = s\<lparr>out := out s @ [l]\<rparr>"

definition path_exists :: "state \<Rightarrow> string \<Rightarrow> bool" where
  "path_exists s p = (fs s p \<noteq> None)"

definition bind_var :: "string \<Rightarrow> pyval \<Rightarrow> state \<Rightarrow> state" where
  "bind_var x v s = s\<lparr>vars := (vars s)(x \<mapsto> v)\<rparr>"

text \<open>The lines printed between an earlier state and a later one.\<close>

definition new_output :: "state \<Rightarrow> state \<Rightarrow> string list" where
  "new_output s s' = drop (length (out s)) (out s')"

text \<open>\<^verbatim>\<open>os.path.join(a, b)\<close> with POSIX separators.\<close>

definition path_join :: "string \<Rightarrow> string \<Rightarrow> string" where
  "path_join a b =
     (if b \<noteq> [] \<and> hd b = CHR ''/'' then b
      else if a = [] \<or> last a = CHR ''/'' then a @ b
      else a @ ''/'' @ b)"

section \<open>download_file\<close>

text \<open>
  \<^verbatim>\<open>
  def download_file(src_url, dst_fn):
      if os.path.exists(dst_fn):
          print('File %s already exists' % dst_fn)
          return
      print('Downloading %s' % dst_fn)
      r = requests.get(src_url, stream=True)
      total_size = int(r.headers.get('content-length', 0));
      block_size = 1024
      wrote = 0
      with open(dst_fn, 'wb') as f:
          with tqdm(total=total_size//block_size, unit='kB',
                             unit_scale=True, unit_divisor=1024) as pbar:
              for data in r.iter_content(block_size):
                  wrote = wrote + len(data)
                  pbar.update(1)
                  f.write(data)
      if total_size != 0 and wrote != total_size:
          print("ERROR, something went wrong")
  \<close>
  The progress bar draws on standard error only; the loop keeps its counter and the
  model drops it at the end. Nothing in the function catches an exception: one raised
  by the request, by \<^verbatim>\<open>int\<close>, by \<^verbatim>\<open>open\<close>, by \<^verbatim>\<open>f.write\<close> or by the iterator leaves
  the function at once, the \<^verbatim>\<open>with\<close> statements closing the file on the way, and the
  final comparison is not reached.
\<close>

definition error_message :: string where
  "error_message = ''ERROR, something went wrong''"

definition total_size_of :: "response \<Rightarrow> error + int" where
  "total_size_of r =
     (case header r of
        NoHeader \<Rightarrow> Inr 0
      | Length n \<Rightarrow> Inr n
      | Unparsable \<Rightarrow> Inl ValueError)"

text \<open>\<^verbatim>\<open>open(dst_fn, 'wb')\<close>: the file is created empty, or truncated.\<close>

definition open_wb :: "env \<Rightarrow> string \<Rightarrow> state \<Rightarrow> error + state" where
  "open_wb env p s =
     (case fs s p of
        Some Dir \<Rightarrow> Inl OSError
      | Some (File c) \<Rightarrow> Inr (s\<lparr>fs := (fs s)(p \<mapsto> File [])\<rparr>)
      | None \<Rightarrow>
          (case open_wb_error env p of
             Some e \<Rightarrow> Inl e
           | None \<Rightarrow> Inr (s\<lparr>fs := (fs s)(p \<mapsto> File [])\<rparr>)))"

text \<open>\<^verbatim>\<open>f.write(data)\<close> on the file opened at \<open>p\<close>.\<close>

definition file_write :: "env \<Rightarrow> string \<Rightarrow> byte list \<Rightarrow> state \<Rightarrow> error + state" where
  "file_write env p data s =
     (case fs s p of
        Some (File c) \<Rightarrow>
          (case write_error env p c data of
             Some e \<Rightarrow> Inl e
           | None \<Rightarrow> Inr (s\<lparr>fs := (fs s)(p \<mapsto> File (c @ data))\<rparr>))
      | _ \<Rightarrow> Inl OSError)"

text \<open>
  The body of the \<^verbatim>\<open>for data in r.iter_content(block_size)\<close> loop, run on the blocks
  the iterator delivers; the accumulator is \<open>(wrote, pbar, state)\<close>. A write that
  raises ends the loop with the counters already advanced and the block not written.
\<close>

fun write_blocks ::
  "env \<Rightarrow> string \<Rightarrow> byte list list \<Rightarrow> int \<times> nat \<times> state \<Rightarrow> error option \<times> int \<times> nat \<times> state" where
  "write_blocks env dst_fn [] acc = (None, acc)"
| "write_blocks env dst_fn (data # rest) (wrote, pbar, s) =
     (case file_write env dst_fn data s of
        Inl e \<Rightarrow> (Some e, wrote + int (length data), pbar + 1, s)
      | Inr s' \<Rightarrow> write_blocks env dst_fn rest (wrote + int (length data), pbar + 1, s'))"

text \<open>Every write of the blocks \<open>bs\<close> to the file at \<open>p\<close>, which holds \<open>c\<close>, succeeds.\<close>

fun writes_succeed :: "env \<Rightarrow> string \<Rightarrow> byte list \<Rightarrow> byte list list \<Rightarrow> bool" where
  "writes_succeed env p c [] = True"
| "writes_succeed env p c (b # bs) =
     (write_error env p c b = None \<and> writes_succeed env p (c @ b) bs)"

definition download_file :: "env \<Rightarrow> string \<Rightarrow> string \<Rightarrow> state \<Rightarrow> error option \<times> state" where
  "download_file env src_url dst_fn s =
     (if path_exists s dst_fn then
        (None, print_line (''File '' @ dst_fn @ '' already exists'') s)
      else
        let s1 = print_line (''Downloading '' @ dst_fn) s;
            s2 = s1\<lparr>requests := requests s1 @ [src_url]\<rparr>
        in case http_get env src_url of
             Inl e \<Rightarrow> (Some e, s2)
           | Inr r \<Rightarrow>
               (case total_size_of r of
                  Inl e \<Rightarrow> (Some e, s2)
                | Inr total_size \<Rightarrow>
                    (case open_wb env dst_fn s2 of
                       Inl e \<Rightarrow> (Some e, s2)
                     | Inr s3 \<Rightarrow>
                         (case write_blocks env dst_fn (blocks r) (0, 0, s3) of
                            (Some e, wrote, pbar, s4) \<Rightarrow> (Some e, s4)
                          | (None, wrote, pbar, s4) \<Rightarrow>
                              (case stream_error r of
                                 Some e \<Rightarrow> (Some e, s4)
                               | None \<Rightarrow>
                                   if total_size \<noteq> 0 \<and> wrote \<noteq> total_size
                                   then (None, print_line error_message s4)
                                   else (None, s4))))))"


section \<open>The download cell\<close>

text \<open>
  The cell imports \<^verbatim>\<open>tqdm\<close>, \<^verbatim>\<open>requests\<close>, \<^verbatim>\<open>os\<close> and \<^verbatim>\<open>zipfile\<close>, defines
  \<^verbatim>\<open>download_file\<close>, and then runs
  \<^verbatim>\<open>
  matlab_dir = 'matlab'
  digits_fn =  os.path.join(matlab_dir,'emnist-digits.mat')
  letters_fn = os.path.join(matlab_dir,'emnist-letters.mat')

  if os.path.exists(matlab_dir):
      if os.path.exists(digits_fn) and os.path.exists(letters_fn):
          print('Files already downloaded')
          files_exists = True
  else:
      files_exists = False

  if not files_exists:
      src_url = "http://www.itl.nist.gov/iaui/vip/cs_links/EMNIST/matlab.zip"
      dst_fn = 'matlab.zip'
      download_file(src_url, dst_fn)
      print('Unzipping %s...' % dst_fn)
      zip_ref = zipfile.ZipFile(dst_fn, 'r')
      zip_ref.extractall('.')
      zip_ref.close()
      print('Unzip completed')
  \<close>
  The four modules are taken to be installed. A global that no statement has bound
  yet is absent from \<open>vars\<close>, and reading it raises NameError.
\<close>

definition import_module :: "string \<Rightarrow> string \<Rightarrow> state \<Rightarrow> state" where
  "import_module m x s = (bind_var x (PModule m) s)\<lparr>loaded := loaded s @ [m]\<rparr>"

text \<open>
  Python's truth value of an object, as \<^verbatim>\<open>not\<close> and \<^verbatim>\<open>if\<close> take it. An array has
  one only when it holds exactly one element (numpy 2; numpy 1 still gave an empty
  array the value False, with a warning).
\<close>

fun truthy :: "pyval \<Rightarrow> error + bool" where
  "truthy (PInt n) = Inr (n \<noteq> 0)"
| "truthy (PFloat q) = Inr (q \<noteq> 0)"
| "truthy (PBool b) = Inr b"
| "truthy (PStr t) = Inr (t \<noteq> [])"
| "truthy (PList vs) = Inr (vs \<noteq> [])"
| "truthy (PArray []) = Inl ValueError"
| "truthy (PArray [v]) = truthy v"
| "truthy (PArray (v # w # vs)) = Inl ValueError"
| "truthy (PMatrix rows) =
     (case concat rows of [q] \<Rightarrow> Inr (q \<noteq> 0) | _ \<Rightarrow> Inl ValueError)"
| "truthy (PModule m) = Inr True"
| "truthy (PFunction f) = Inr True"
| "truthy (PZipFile p) = Inr True"

definition read_var :: "state \<Rightarrow> string \<Rightarrow> error + pyval" where
  "read_var s x = (case vars s x of None \<Rightarrow> Inl (NameError x) | Some v \<Rightarrow> Inr v)"

definition matlab_dir :: string where
  "matlab_dir = ''matlab''"

definition digits_fn :: string where
  "digits_fn = path_join matlab_dir ''emnist-digits.mat''"

definition letters_fn :: string where
  "letters_fn = path_join matlab_dir ''emnist-letters.mat''"

definition src_url :: string where
  "src_url = ''http://www.itl.nist.gov/iaui/vip/cs_links/EMNIST/matlab.zip''"

definition dst_fn :: string where
  "dst_fn = ''matlab.zip''"

text \<open>
  The directories above a path: every proper prefix that ends just before a
  separator. \<open>parent_dirs pre rest\<close> walks \<open>rest\<close> with \<open>pre\<close> already read.
\<close>

fun parent_dirs :: "string \<Rightarrow> string \<Rightarrow> string list" where
  "parent_dirs pre [] = []"
| "parent_dirs pre (c # cs) =
     (if c = CHR ''/'' \<and> pre \<noteq> [] then pre # parent_dirs (pre @ [c]) cs
      else parent_dirs (pre @ [c]) cs)"

text \<open>\<^verbatim>\<open>os.makedirs\<close> on each of them: a directory is created where nothing is.\<close>

fun make_dirs :: "string list \<Rightarrow> (string \<rightharpoonup> node) \<Rightarrow> (string \<rightharpoonup> node)" where
  "make_dirs [] files = files"
| "make_dirs (d # ds) files =
     make_dirs ds (case files d of None \<Rightarrow> files(d \<mapsto> Dir) | Some nd \<Rightarrow> files)"

text \<open>
  One member of the archive: its parent directories are created, then a directory
  member is created if missing and a file member is written, replacing what was
  there.
\<close>

definition extract_member :: "string \<Rightarrow> node \<Rightarrow> (string \<rightharpoonup> node) \<Rightarrow> (string \<rightharpoonup> node)" where
  "extract_member name nd files =
     (let files' = make_dirs (parent_dirs [] name) files
      in case nd of
           Dir \<Rightarrow> make_dirs [name] files'
         | File c \<Rightarrow> files'(name \<mapsto> File c))"

text \<open>\<^verbatim>\<open>zip_ref.extractall('.')\<close>: every member is extracted under its own path.\<close>

fun extract_members :: "(string \<times> node) list \<Rightarrow> state \<Rightarrow> state" where
  "extract_members [] s = s"
| "extract_members ((name, nd) # rest) s =
     extract_members rest (s\<lparr>fs := extract_member name nd (fs s)\<rparr>)"

text \<open>\<^verbatim>\<open>zipfile.ZipFile(p, 'r')\<close> followed by \<^verbatim>\<open>extractall\<close> and \<^verbatim>\<open>close\<close>.\<close>

definition unzip_file :: "env \<Rightarrow> string \<Rightarrow> state \<Rightarrow> error option \<times> state" where
  "unzip_file env p s =
     (case fs s p of
        None \<Rightarrow> (Some OSError, s)
      | Some Dir \<Rightarrow> (Some OSError, s)
      | Some (File c) \<Rightarrow>
          (case unzip env c of
             Inl e \<Rightarrow> (Some e, s)
           | Inr members \<Rightarrow>
               (None, extract_members members (bind_var ''zip_ref'' (PZipFile p) s))))"

text \<open>The statements of the cell up to the two \<^verbatim>\<open>if\<close> statements.\<close>

definition cell_prelude :: "state \<Rightarrow> state" where
  "cell_prelude s =
     bind_var ''letters_fn'' (PStr letters_fn)
       (bind_var ''digits_fn'' (PStr digits_fn)
         (bind_var ''matlab_dir'' (PStr matlab_dir)
           (bind_var ''download_file'' (PFunction ''download_file'')
             (import_module ''zipfile'' ''zipfile''
               (import_module ''os'' ''os''
                 (import_module ''requests'' ''requests''
                   (import_module ''tqdm'' ''tqdm'' s)))))))"

text \<open>The first \<^verbatim>\<open>if\<close>: the inner \<^verbatim>\<open>if\<close> has no \<^verbatim>\<open>else\<close>.\<close>

definition check_files :: "state \<Rightarrow> state" where
  "check_files s =
     (if path_exists s matlab_dir then
        (if path_exists s digits_fn \<and> path_exists s letters_fn
         then bind_var ''files_exists'' (PBool True) (print_line ''Files already downloaded'' s)
         else s)
      else bind_var ''files_exists'' (PBool False) s)"

definition download_cell :: "env \<Rightarrow> state \<Rightarrow> error option \<times> state" where
  "download_cell env s0 =
     (let s1 = check_files (cell_prelude s0)
      in case read_var s1 ''files_exists'' of
           Inl e \<Rightarrow> (Some e, s1)
         | Inr v \<Rightarrow>
             (case truthy v of
                Inl e \<Rightarrow> (Some e, s1)
              | Inr True \<Rightarrow> (None, s1)
              | Inr False \<Rightarrow>
                  (let s2 = bind_var ''dst_fn'' (PStr dst_fn) (bind_var ''src_url'' (PStr src_url) s1)
                   in case download_file env src_url dst_fn s2 of
                        (Some e, s3) \<Rightarrow> (Some e, s3)
                      | (None, s3) \<Rightarrow>
                          (case unzip_file env dst_fn
                                  (print_line (''Unzipping '' @ dst_fn @ ''...'') s3) of
                             (Some e, s4) \<Rightarrow> (Some e, s4)
                           | (None, s4) \<Rightarrow> (None, print_line ''Unzip completed'' s4)))))"

section \<open>load_emnist\<close>

text \<open>
  \<^verbatim>\<open>
  def load_emnist(file_path='emnist-digits.mat'):
      mat = scipy.io.loadmat(file_path)
      Xtr = mat['dataset'][0][0][0][0][0][0][:]
      ntr = Xtr.shape[0]
      ytr = mat['dataset'][0][0][0][0][0][1][:].reshape(ntr).astype(int)
      Xts = mat['dataset'][0][0][1][0][0][0][:]
      nts = Xts.shape[0]
      yts = mat['dataset'][0][0][1][0][0][1][:].reshape(nts).astype(int)
      print("%d training samples, %d test samples loaded" % (ntr, nts))
      return [Xtr, Xts, ytr, yts]
  \<close>
\<close>

text \<open>\<^verbatim>\<open>a[i]\<close> for a constant index \<open>i \<ge> 0\<close>.\<close>

fun index :: "ndarray \<Rightarrow> nat \<Rightarrow> error + ndarray" where
  "index (Cells xs) i = (if i < length xs then Inr (xs ! i) else Inl IndexError)"
| "index (Matrix rows) i = (if i < length rows then Inr (Vector (rows ! i)) else Inl IndexError)"
| "index (Vector v) i = (if i < length v then Inr (Scalar (v ! i)) else Inl IndexError)"
| "index (IntVector v) i = (if i < length v then Inr (Scalar (of_int (v ! i))) else Inl IndexError)"
| "index (Scalar x) i = Inl IndexError"

fun index_path :: "ndarray \<Rightarrow> nat list \<Rightarrow> error + ndarray" where
  "index_path a [] = Inr a"
| "index_path a (i # rest) = (case index a i of Inl e \<Rightarrow> Inl e | Inr b \<Rightarrow> index_path b rest)"

text \<open>\<^verbatim>\<open>a[:]\<close>: the whole array; a scalar cannot be sliced.\<close>

fun slice_all :: "ndarray \<Rightarrow> error + ndarray" where
  "slice_all (Scalar x) = Inl IndexError"
| "slice_all a = Inr a"

text \<open>\<^verbatim>\<open>a.shape[0]\<close>; a scalar's shape is the empty tuple.\<close>

fun shape0 :: "ndarray \<Rightarrow> error + nat" where
  "shape0 (Cells xs) = Inr (length xs)"
| "shape0 (Matrix rows) = Inr (length rows)"
| "shape0 (Vector v) = Inr (length v)"
| "shape0 (IntVector v) = Inr (length v)"
| "shape0 (Scalar x) = Inl IndexError"

text \<open>The number of elements, and the array laid out in one dimension.\<close>

fun size_of :: "ndarray \<Rightarrow> nat" where
  "size_of (Cells xs) = length xs"
| "size_of (Matrix rows) = length (concat rows)"
| "size_of (Vector v) = length v"
| "size_of (IntVector v) = length v"
| "size_of (Scalar x) = 1"

fun flatten :: "ndarray \<Rightarrow> ndarray" where
  "flatten (Matrix rows) = Vector (concat rows)"
| "flatten (Scalar x) = Vector [x]"
| "flatten a = a"

text \<open>\<^verbatim>\<open>a.reshape(n)\<close>: ValueError unless the array has exactly \<open>n\<close> elements.\<close>

definition reshape :: "nat \<Rightarrow> ndarray \<Rightarrow> error + ndarray" where
  "reshape n a = (if size_of a = n then Inr (flatten a) else Inl ValueError)"

text \<open>
  Conversion of a number to the 64-bit \<^verbatim>\<open>int\<close> of numpy drops the fraction (rounds
  towards zero); a value outside the 64-bit range becomes the least 64-bit integer,
  as the conversion instruction of the usual processors gives it.
\<close>

definition trunc :: "rat \<Rightarrow> int" where
  "trunc q =
     (let t = (if 0 \<le> q then \<lfloor>q\<rfloor> else \<lceil>q\<rceil>)
      in if - 9223372036854775808 \<le> t \<and> t < 9223372036854775808 then t
         else - 9223372036854775808)"

text \<open>\<^verbatim>\<open>a.astype(int)\<close>; an array of records has no such conversion (ValueError).\<close>

fun astype_int :: "ndarray \<Rightarrow> error + ndarray" where
  "astype_int (Vector v) = Inr (IntVector (map trunc v))"
| "astype_int (IntVector v) = Inr (IntVector v)"
| "astype_int (Matrix rows) = Inr (Matrix (map (map (\<lambda>q. of_int (trunc q))) rows))"
| "astype_int (Scalar x) = Inr (Scalar (of_int (trunc x)))"
| "astype_int (Cells xs) = Inl ValueError"

text \<open>\<^verbatim>\<open>mat['dataset'][i0]...[ik][:]\<close>.\<close>

definition dataset_field :: "(string \<rightharpoonup> ndarray) \<Rightarrow> nat list \<Rightarrow> error + ndarray" where
  "dataset_field mat path =
     (case mat ''dataset'' of
        None \<Rightarrow> Inl (KeyError ''dataset'')
      | Some d \<Rightarrow> (case index_path d path of Inl e \<Rightarrow> Inl e | Inr a \<Rightarrow> slice_all a))"

text \<open>\<^verbatim>\<open>mat['dataset'][i0]...[ik][:].reshape(n).astype(int)\<close>.\<close>

definition label_field :: "(string \<rightharpoonup> ndarray) \<Rightarrow> nat list \<Rightarrow> nat \<Rightarrow> error + ndarray" where
  "label_field mat path n =
     (case dataset_field mat path of
        Inl e \<Rightarrow> Inl e
      | Inr a \<Rightarrow> (case reshape n a of Inl e \<Rightarrow> Inl e | Inr b \<Rightarrow> astype_int b))"

text \<open>Decimal digits of a natural number, for \<^verbatim>\<open>%d\<close>.\<close>

fun str_nat :: "nat \<Rightarrow> string" where
  "str_nat n =
     (if n < 10 then [''0123456789'' ! n]
      else str_nat (n div 10) @ [''0123456789'' ! (n mod 10)])"

declare str_nat.simps [simp del]

definition load_emnist :: "env \<Rightarrow> string \<Rightarrow> state \<Rightarrow> (error + ndarray list) \<times> state" where
  "load_emnist env file_path s =
     (case loadmat env file_path (fs s) of
        Inl e \<Rightarrow> (Inl e, s)
      | Inr mat \<Rightarrow>
     (case dataset_field mat [0, 0, 0, 0, 0, 0] of
        Inl e \<Rightarrow> (Inl e, s)
      | Inr Xtr \<Rightarrow>
     (case shape0 Xtr of
        Inl e \<Rightarrow> (Inl e, s)
      | Inr ntr \<Rightarrow>
     (case label_field mat [0, 0, 0, 0, 0, 1] ntr of
        Inl e \<Rightarrow> (Inl e, s)
      | Inr ytr \<Rightarrow>
     (case dataset_field mat [0, 0, 1, 0, 0, 0] of
        Inl e \<Rightarrow> (Inl e, s)
      | Inr Xts \<Rightarrow>
     (case shape0 Xts of
        Inl e \<Rightarrow> (Inl e, s)
      | Inr nts \<Rightarrow>
     (case label_field mat [0, 0, 1, 0, 0, 1] nts of
        Inl e \<Rightarrow> (Inl e, s)
      | Inr yts \<Rightarrow>
          (Inr [Xtr, Xts, ytr, yts],
           print_line (str_nat ntr @ '' training samples, '' @ str_nat nts
                       @ '' test samples loaded'') s))))))))"

section \<open>The cells marked TODO\<close>

text \<open>
  Twenty-two code cells carry a \<^verbatim>\<open># TODO n\<close> comment for the learner. Besides
  comments they hold the statements below, written here as syntax so that a property
  of every cell can be stated. A decimal literal stands for the rational it denotes.
\<close>

datatype expr =
    IntLit int
  | FloatLit rat
  | ListLit "expr list"
  | Name string
  | NpArray expr
  | Len expr
  | NpZeros expr expr

text \<open>
  \<open>NpArray e\<close> is \<^verbatim>\<open>np.array(e)\<close>, \<open>Len e\<close> is \<^verbatim>\<open>len(e)\<close>, \<open>NpZeros a b\<close> is
  \<^verbatim>\<open>np.zeros((a,b))\<close>.
\<close>

datatype stmt =
    Comment string
  | Assign string expr
  | FromImport string string

text \<open>\<open>FromImport m x\<close> is \<^verbatim>\<open>from m import x\<close>.\<close>

definition todo_cells :: "(nat \<times> stmt list) list" where
  "todo_cells = [
    (1, [Comment ''TODO 1:  Load the digit data from emnist-digits.mat'',
        Comment ''Xtr_dig, Xts_dig, ytr_dig, yts_dig = ...'']),
    (2, [Comment ''TODO 2:  Load the letter data from emnist-letters.mat'',
        Comment ''Xtr_let, Xts_let, ytr_let, yts_let = ...'']),
    (3, [Comment ''TODO 3:  Plot 8 random samples from the training data of the digits'']),
    (4, [Comment ''TODO 4:  Plot 8 random samples from the training data of the letters'']),
    (5, [Assign ''remove_list'' (NpArray (ListLit [IntLit 9, IntLit 12, IntLit 15])),
        Comment ''TODO 5:  Create arrays with labels 9, 12 and 15 removed'',
        Comment ''Xtr_let_rem, ytr_let_rem = ...'',
        Comment ''Xts_let_rem, yts_let_rem = ...'']),
    (6, [Comment ''Number of training and test digits and letters'',
        Assign ''ntr_dig'' (IntLit 5000),
        Assign ''ntr_let'' (IntLit 1000),
        Assign ''nts_dig'' (IntLit 5000),
        Assign ''nts_let'' (IntLit 1000),
        Comment ''TODO 6 Create sub-sampled training and test data'',
        Comment ''Xtr1_dig, ytr1_dig = ...'',
        Comment ''Xts1_dig, yts1_dig = ...'',
        Comment ''Xtr1_let, ytr1_let = ...'',
        Comment ''Xts1_let, yts1_let = ... '']),
    (7, [Comment ''TODO 7:  Create combined letter and digit training and test data'',
        Comment ''Xtr, ytr = ..'',
        Comment ''Xts, yts = ...'']),
    (8, [Comment ''TODO 8:  Rescale the data from -1 to 1'',
        Comment ''Xtr1 = ...'',
        Comment ''Xts1 = ...'']),
    (9, [FromImport ''sklearn'' ''svm'',
        Comment ''TODO 9:  Create a classifier: a support vector classifier'',
        Comment ''svc = ...'']),
    (10, [Comment ''TODO 10:  Fit the classifier on the training data. '']),
    (11, [Comment ''TODO 11:  Measure error on the test data'']),
    (12, [Comment ''TODO 12:  Print a confusion matrix'']),
    (13, [Comment ''TODO 13:  Print above two error rates'']),
    (14, [Assign ''C_test'' (ListLit [FloatLit (1 / 10), IntLit 1, IntLit 10]),
        Assign ''gam_test'' (ListLit [FloatLit (1 / 1000), FloatLit (1 / 100), FloatLit (1 / 10)]),
        Assign ''nC'' (Len (Name ''C_test'')),
        Assign ''ngam'' (Len (Name ''gam_test'')),
        Assign ''acc'' (NpZeros (Name ''nC'') (Name ''ngam'')),
        Comment ''TODO 14:  Measure and print the accuracy for each C and gamma value.  Store the results in acc'']),
    (15, [Comment ''TODO 15:  Print the accuracy matrix'']),
    (16, [Comment ''TODO 16:  Print the maximum accuracy and the corresponding best C and gamma'']),
    (17, [Comment ''TODO 17:  Create combined trained and test data X and y.'',
        Comment ''X = ...'',
        Comment ''y = ...'']),
    (18, [Comment ''TODO 18:  Create a pre-defined test split object '',
        Comment ''import sklearn.model_selection'',
        Comment ''test_fold = ...'',
        Comment ''ps = sklearn.model_selection.PredefinedSplit(test_fold)'']),
    (19, [Comment ''TODO 19:  Create a GridSearchCV classifier'',
        Comment ''clf = ...'']),
    (20, [Comment ''TODO 20: Fit the classifier'']),
    (21, [Comment ''TODO 21:  Print the best parameter and score of the classifier'']),
    (22, [Comment ''TODO 22:  Print the mean test score for each parameter value.''])]"

text \<open>The names the cells bind by assignment.\<close>

definition named_constants :: "string list" where
  "named_constants =
     [''remove_list'', ''ntr_dig'', ''ntr_let'', ''nts_dig'', ''nts_let'',
      ''C_test'', ''gam_test'', ''nC'', ''ngam'', ''acc'']"

fun sequence_err :: "(error + 'a) list \<Rightarrow> error + 'a list" where
  "sequence_err [] = Inr []"
| "sequence_err (r # rs) =
     (case r of
        Inl e \<Rightarrow> Inl e
      | Inr v \<Rightarrow> (case sequence_err rs of Inl e \<Rightarrow> Inl e | Inr vs \<Rightarrow> Inr (v # vs)))"

text \<open>The attribute access \<^verbatim>\<open>np.f\<close>: \<^verbatim>\<open>np\<close> must be bound, and to numpy.\<close>

definition numpy_bound :: "state \<Rightarrow> error option" where
  "numpy_bound s =
     (case vars s ''np'' of
        None \<Rightarrow> Some (NameError ''np'')
      | Some v \<Rightarrow> if v = PModule ''numpy'' then None else Some AttributeError)"

fun len :: "pyval \<Rightarrow> error + pyval" where
  "len (PList vs) = Inr (PInt (int (length vs)))"
| "len (PArray vs) = Inr (PInt (int (length vs)))"
| "len (PStr t) = Inr (PInt (int (length t)))"
| "len (PMatrix rows) = Inr (PInt (int (length rows)))"
| "len v = Inl TypeError"

text \<open>A dimension of \<^verbatim>\<open>np.zeros\<close>: an integer that is not negative.\<close>

fun dimension :: "pyval \<Rightarrow> error + nat" where
  "dimension (PInt n) = (if n < 0 then Inl ValueError else Inr (nat n))"
| "dimension (PBool b) = Inr (if b then 1 else 0)"
| "dimension v = Inl TypeError"

fun eval_expr :: "state \<Rightarrow> expr \<Rightarrow> error + pyval" where
  "eval_expr s (IntLit n) = Inr (PInt n)"
| "eval_expr s (FloatLit q) = Inr (PFloat q)"
| "eval_expr s (ListLit es) =
     (case sequence_err (map (eval_expr s) es) of Inl e \<Rightarrow> Inl e | Inr vs \<Rightarrow> Inr (PList vs))"
| "eval_expr s (Name x) = read_var s x"
| "eval_expr s (NpArray e) =
     (case numpy_bound s of
        Some err \<Rightarrow> Inl err
      | None \<Rightarrow>
          (case eval_expr s e of
             Inl err \<Rightarrow> Inl err
           | Inr (PList vs) \<Rightarrow> Inr (PArray vs)
           | Inr v \<Rightarrow> Inr (PArray [v])))"
| "eval_expr s (Len e) = (case eval_expr s e of Inl err \<Rightarrow> Inl err | Inr v \<Rightarrow> len v)"
| "eval_expr s (NpZeros a b) =
     (case numpy_bound s of
        Some err \<Rightarrow> Inl err
      | None \<Rightarrow>
          (case eval_expr s a of
             Inl err \<Rightarrow> Inl err
           | Inr va \<Rightarrow>
               (case eval_expr s b of
                  Inl err \<Rightarrow> Inl err
                | Inr vb \<Rightarrow>
                    (case dimension va of
                       Inl err \<Rightarrow> Inl err
                     | Inr m \<Rightarrow>
                         (case dimension vb of
                            Inl err \<Rightarrow> Inl err
                          | Inr n \<Rightarrow> Inr (PMatrix (replicate m (replicate n 0))))))))"

fun exec_stmt :: "stmt \<Rightarrow> state \<Rightarrow> error option \<times> state" where
  "exec_stmt (Comment c) s = (None, s)"
| "exec_stmt (Assign x e) s =
     (case eval_expr s e of Inl err \<Rightarrow> (Some err, s) | Inr v \<Rightarrow> (None, bind_var x v s))"
| "exec_stmt (FromImport m x) s = (None, import_module (m @ ''.'' @ x) x s)"

text \<open>Statements run in order; an exception ends the cell.\<close>

fun exec_cell :: "stmt list \<Rightarrow> state \<Rightarrow> error option \<times> state" where
  "exec_cell [] s = (None, s)"
| "exec_cell (st # rest) s =
     (case exec_stmt st s of
        (Some err, s') \<Rightarrow> (Some err, s')
      | (None, s') \<Rightarrow> exec_cell rest s')"

text \<open>The names a statement can bind.\<close>

fun target :: "stmt \<Rightarrow> string list" where
  "target (Comment c) = []"
| "target (Assign x e) = [x]"
| "target (FromImport m x) = [x]"

fun is_import :: "stmt \<Rightarrow> bool" where
  "is_import (FromImport m x) = True"
| "is_import st = False"

text \<open>A comment line, or an assignment to one of the named constants.\<close>

fun comment_or_constant :: "stmt \<Rightarrow> bool" where
  "comment_or_constant (Comment c) = True"
| "comment_or_constant (Assign x e) = (x \<in> set named_constants)"
| "comment_or_constant (FromImport m x) = False"

text \<open>The cell marked \<^verbatim>\<open># TODO n\<close>.\<close>

definition todo_cell :: "nat \<Rightarrow> stmt list" where
  "todo_cell n = (case map_of todo_cells n of Some c \<Rightarrow> c | None \<Rightarrow> [])"

text \<open>
  What the cell of TODO \<open>n\<close> holds: comments, assignments to the named constants
  and, in the cell of TODO 9, the import of \<^verbatim>\<open>svm\<close>.
\<close>

definition allowed_stmt :: "nat \<Rightarrow> stmt \<Rightarrow> bool" where
  "allowed_stmt n st =
     (comment_or_constant st \<or> (n = 9 \<and> st = FromImport ''sklearn'' ''svm''))"

section \<open>The field extraction, in the words of the specification\<close>

text \<open>
  The specification describes \<^verbatim>\<open>load_emnist\<close> as the extraction of four nested fields
  of the dictionary: the training images, the test images and the two label arrays,
  each label array flattened to one dimension and cast to int, returned as the list
  \<^verbatim>\<open>[Xtr, Xts, ytr, yts]\<close>. This second definition follows those words, with no
  statement order and no size argument; \<open>load_emnist\<close> above follows the code. The
  record \<^verbatim>\<open>dataset\<close> has the parts train (0) and test (1), each with the fields
  images (0) and labels (1).
\<close>

definition nested_field :: "(string \<rightharpoonup> ndarray) \<Rightarrow> nat \<Rightarrow> nat \<Rightarrow> ndarray option" where
  "nested_field mat part item =
     (case dataset_field mat [0, 0, part, 0, 0, item] of Inl e \<Rightarrow> None | Inr a \<Rightarrow> Some a)"

definition flat_int :: "ndarray \<Rightarrow> ndarray option" where
  "flat_int a = (case astype_int (flatten a) of Inl e \<Rightarrow> None | Inr b \<Rightarrow> Some b)"

definition extract_fields :: "(string \<rightharpoonup> ndarray) \<Rightarrow> ndarray list option" where
  "extract_fields mat =
     (case (nested_field mat 0 0, nested_field mat 1 0,
            Option.bind (nested_field mat 0 1) flat_int,
            Option.bind (nested_field mat 1 1) flat_int) of
        (Some Xtr, Some Xts, Some ytr, Some yts) \<Rightarrow> Some [Xtr, Xts, ytr, yts]
      | _ \<Rightarrow> None)"

section \<open>The data steps the learner writes\<close>

text \<open>
  A data set is a list of rows of pixel values with a list of labels. The cells of
  TODO 5 to TODO 8 hold no statement that touches a data set: what they are to do is
  said in the text of the notebook, and the four definitions below follow that text.
\<close>

type_synonym dataset = "rat list list \<times> int list"

definition well_shaped :: "dataset \<Rightarrow> bool" where
  "well_shaped d = (length (snd d) = length (fst d))"

text \<open>
  Modelled from the spec: the letter removal of TODO 5, whose cell only binds
  \<^verbatim>\<open>remove_list\<close>. The notebook asks for the arrays where the samples \<open>i\<close> with
  \<^verbatim>\<open>ytr_let[i] == 9, 12 or 15\<close> are removed.
\<close>

definition remove_letters :: "int list \<Rightarrow> dataset \<Rightarrow> dataset" where
  "remove_letters remove_list d =
     (let kept = filter (\<lambda>(x, l). l \<notin> set remove_list) (zip (fst d) (snd d))
      in (map fst kept, map snd kept))"

text \<open>
  Modelled from the spec: the subsampling of TODO 6, whose cell only binds the four
  sample counts. The notebook asks for randomly selected samples; the selection is
  the list of row numbers \<open>idx\<close>, and a row number out of range raises IndexError.
\<close>

definition subsample :: "nat list \<Rightarrow> dataset \<Rightarrow> error + dataset" where
  "subsample idx d =
     (if list_all (\<lambda>i. i < length (fst d) \<and> i < length (snd d)) idx
      then Inr (map (\<lambda>i. fst d ! i) idx, map (\<lambda>i. snd d ! i) idx)
      else Inl IndexError)"

text \<open>
  Modelled from the spec: the merge of TODO 7, whose cell holds comments only. The
  notebook asks to stack the digit rows and the letter rows, and for a label vector
  with \<^verbatim>\<open>ytr[i] = ytr1_dig[i]\<close> for any digit sample and \<^verbatim>\<open>ytr[i] = 10\<close> for any letter
  sample.
\<close>

definition merge_labels :: "int list \<Rightarrow> int list \<Rightarrow> int list" where
  "merge_labels y_dig y_let = y_dig @ map (\<lambda>l. 10) y_let"

definition merge :: "dataset \<Rightarrow> dataset \<Rightarrow> dataset" where
  "merge dig lett = (fst dig @ fst lett, merge_labels (snd dig) (snd lett))"


text \<open>
  Modelled from the spec: the rescaling of TODO 8, whose cell holds comments only.
  The notebook says the data takes values from 0 to 255 and is to be rescaled from
  -1 to 1 into \<^verbatim>\<open>Xtr1\<close> and \<^verbatim>\<open>Xts1\<close>; the specification calls it an affine transform
  with 0 going to -1 and 255 going to 1. Pixel values are exact rationals here.
\<close>

definition rescale_value :: "rat \<Rightarrow> rat" where
  "rescale_value x = 2 * x / 255 - 1"

definition rescale :: "rat list list \<Rightarrow> rat list list" where
  "rescale X = map (map rescale_value) X"

definition rescale_step :: "rat list list \<Rightarrow> rat list list \<Rightarrow> rat list list \<times> rat list list" where
  "rescale_step Xtr Xts = (rescale Xtr, rescale Xts)"

definition rescale_dataset :: "dataset \<Rightarrow> dataset" where
  "rescale_dataset d = (rescale (fst d), snd d)"

section \<open>Sample inputs\<close>

text \<open>
  A kernel that has run nothing on an empty working directory, a directory with
  given entries, and a network that answers every request with the same header and
  body, on a file system where any file may be created and written.
\<close>

definition fresh_state :: state where
  "fresh_state = \<lparr>fs = Map.empty, out = [], requests = [], vars = Map.empty, loaded = []\<rparr>"

definition state_with :: "(string \<times> node) list \<Rightarrow> state" where
  "state_with entries = fresh_state\<lparr>fs := map_of entries\<rparr>"

definition sample_images :: "rat list list" where
  "sample_images = [[0, 255, 51], [128, 7, 0]]"

definition sample_part :: "rat list list \<Rightarrow> rat list list \<Rightarrow> ndarray" where
  "sample_part images labels = Cells [Cells [Cells [Matrix images, Matrix labels]]]"

definition sample_mat :: "string \<rightharpoonup> ndarray" where
  "sample_mat =
     [''dataset'' \<mapsto>
        Cells [Cells [Cells [sample_part sample_images [[3], [7]],
                             sample_part [[9, 9, 9]] [[5 / 2]]]]]]"

definition sample_env :: "content_length \<Rightarrow> byte list list \<Rightarrow> env" where
  "sample_env h bs =
     \<lparr>http_get = (\<lambda>u. Inr \<lparr>header = h, blocks = bs, stream_error = None\<rparr>),
      open_wb_error = (\<lambda>p. None),
      write_error = (\<lambda>p c data. None),
      unzip = (\<lambda>c. Inr [(''matlab'', Dir)]),
      loadmat = (\<lambda>p files. case files p of Some (File c) \<Rightarrow> Inr sample_mat | _ \<Rightarrow> Inl OSError)\<rparr>"

definition offline_env :: env where
  "offline_env = (sample_env NoHeader [])\<lparr>http_get := (\<lambda>u. Inl ConnectionError)\<rparr>"


section \<open>Facts about download_file\<close>

lemma file_write_frame:
  assumes "file_write env p b s = Inr s'"
  shows "out s' = out s" "requests s' = requests s" "vars s' = vars s" "loaded s' = loaded s"
    and "q \<noteq> p \<Longrightarrow> fs s' q = fs s q"
    and "fs s p \<noteq> None \<Longrightarrow> fs s' p \<noteq> None"
  using assms by (auto simp: file_write_def split: option.splits node.splits)

lemma write_blocks_frame:
  "out (snd (snd (snd (write_blocks env p bs (w, n, s))))) = out s
   \<and> requests (snd (snd (snd (write_blocks env p bs (w, n, s))))) = requests s
   \<and> vars (snd (snd (snd (write_blocks env p bs (w, n, s))))) = vars s
   \<and> loaded (snd (snd (snd (write_blocks env p bs (w, n, s))))) = loaded s
   \<and> (q \<noteq> p \<longrightarrow> fs (snd (snd (snd (write_blocks env p bs (w, n, s))))) q = fs s q)
   \<and> (fs s p \<noteq> None \<longrightarrow> fs (snd (snd (snd (write_blocks env p bs (w, n, s))))) p \<noteq> None)"
proof (induction bs arbitrary: w n s)
  case Nil
  show ?case by simp
next
  case (Cons b bs)
  show ?case
  proof (cases "file_write env p b s")
    case (Inl e)
    then show ?thesis by simp
  next
    case (Inr s')
    from Cons.IH [of "w + int (length b)" "n + 1" s'] file_write_frame [OF Inr]
    show ?thesis using Inr by simp
  qed
qed

lemma write_blocks_succeed:
  assumes "fs s p = Some (File c)" and "writes_succeed env p c bs"
  shows "write_blocks env p bs (w, n, s) =
           (None, w + int (length (concat bs)), n + length bs,
            s\<lparr>fs := (fs s)(p \<mapsto> File (c @ concat bs))\<rparr>)"
  using assms
proof (induction bs arbitrary: w n s c)
  case Nil
  then show ?case by (simp add: fun_upd_idem)
next
  case (Cons b bs)
  let ?s' = "s\<lparr>fs := (fs s)(p \<mapsto> File (c @ b))\<rparr>"
  have fw: "file_write env p b s = Inr ?s'"
    using Cons.prems by (simp add: file_write_def)
  have step: "write_blocks env p (b # bs) (w, n, s) =
      write_blocks env p bs (w + int (length b), n + 1, ?s')"
    using fw by simp
  have rest: "write_blocks env p bs (w + int (length b), n + 1, ?s') =
      (None, w + int (length b) + int (length (concat bs)), n + 1 + length bs,
       ?s'\<lparr>fs := (fs ?s')(p \<mapsto> File ((c @ b) @ concat bs))\<rparr>)"
    using Cons.prems by (intro Cons.IH) simp_all
  show ?case unfolding step rest by (simp add: fun_upd_def cong: if_cong)
qed

lemma write_blocks_fail:
  assumes "fs s p = Some (File c)" and "\<not> writes_succeed env p c bs"
  shows "\<exists>e. fst (write_blocks env p bs (w, n, s)) = Some e"
  using assms
proof (induction bs arbitrary: w n s c)
  case Nil
  then show ?case by simp
next
  case (Cons b bs)
  show ?case
  proof (cases "write_error env p c b")
    case (Some e)
    then show ?thesis using Cons.prems by (simp add: file_write_def)
  next
    case None
    let ?s' = "s\<lparr>fs := (fs s)(p \<mapsto> File (c @ b))\<rparr>"
    have fw: "file_write env p b s = Inr ?s'"
      using Cons.prems None by (simp add: file_write_def)
    have "\<not> writes_succeed env p (c @ b) bs" using Cons.prems None by simp
    then have "\<exists>e. fst (write_blocks env p bs (w + int (length b), n + 1, ?s')) = Some e"
      by (intro Cons.IH) simp_all
    then show ?thesis using fw by simp
  qed
qed

lemma download_file_existing:
  "path_exists s dst \<Longrightarrow>
   download_file env src dst s = (None, print_line (''File '' @ dst @ '' already exists'') s)"
  by (simp add: download_file_def)

text \<open>The state once the transfer loop has written every block.\<close>

lemma download_file_fetch:
  assumes "\<not> path_exists s dst" and "http_get env src = Inr r"
    and "total_size_of r = Inr tot" and "open_wb_error env dst = None"
    and "writes_succeed env dst [] (blocks r)"
  shows "download_file env src dst s =
     (case stream_error r of
        Some e \<Rightarrow>
          (Some e, s\<lparr>fs := (fs s)(dst \<mapsto> File (concat (blocks r))),
                     out := out s @ [''Downloading '' @ dst],
                     requests := requests s @ [src]\<rparr>)
      | None \<Rightarrow>
          (None, s\<lparr>fs := (fs s)(dst \<mapsto> File (concat (blocks r))),
                   out := out s @ [''Downloading '' @ dst] @
                     (if tot \<noteq> 0 \<and> int (length (concat (blocks r))) \<noteq> tot
                      then [error_message] else []),
                   requests := requests s @ [src]\<rparr>))"
proof -
  define s1 where "s1 = print_line (''Downloading '' @ dst) s"
  define s2 where "s2 = s1\<lparr>requests := requests s1 @ [src]\<rparr>"
  define s3 where "s3 = s2\<lparr>fs := (fs s2)(dst \<mapsto> File [])\<rparr>"
  have absent: "fs s2 dst = None"
    using assms(1) by (simp add: path_exists_def s2_def s1_def print_line_def)
  have op: "open_wb env dst s2 = Inr s3"
    using absent assms(4) by (simp add: open_wb_def s3_def)
  have "fs s3 dst = Some (File [])" by (simp add: s3_def)
  from write_blocks_succeed [OF this assms(5), of 0 0]
  have wb: "write_blocks env dst (blocks r) (0, 0, s3) =
      (None, int (length (concat (blocks r))), length (blocks r),
       s3\<lparr>fs := (fs s3)(dst \<mapsto> File (concat (blocks r)))\<rparr>)"
    by simp
  have "download_file env src dst s =
      (case stream_error r of
         Some e \<Rightarrow> (Some e, s3\<lparr>fs := (fs s3)(dst \<mapsto> File (concat (blocks r)))\<rparr>)
       | None \<Rightarrow>
           if tot \<noteq> 0 \<and> int (length (concat (blocks r))) \<noteq> tot
           then (None, print_line error_message
                         (s3\<lparr>fs := (fs s3)(dst \<mapsto> File (concat (blocks r)))\<rparr>))
           else (None, s3\<lparr>fs := (fs s3)(dst \<mapsto> File (concat (blocks r)))\<rparr>))"
    unfolding download_file_def Let_def s1_def [symmetric] s2_def [symmetric]
    using assms(1-3) op wb by simp
  then show ?thesis
    by (simp add: s3_def s2_def s1_def print_line_def split: option.splits)
qed

lemma download_file_raised:
  assumes "fst (download_file env src dst s) = Some e"
  shows "new_output s (snd (download_file env src dst s)) = [''Downloading '' @ dst]"
    and "requests (snd (download_file env src dst s)) = requests s @ [src]"
    and "q \<noteq> dst \<Longrightarrow> fs (snd (download_file env src dst s)) q = fs s q"
proof -
  define s1 where "s1 = print_line (''Downloading '' @ dst) s"
  define s2 where "s2 = s1\<lparr>requests := requests s1 @ [src]\<rparr>"
  have s2: "out s2 = out s @ [''Downloading '' @ dst]" "requests s2 = requests s @ [src]"
    "fs s2 = fs s"
    by (simp_all add: s2_def s1_def print_line_def)
  have absent: "\<not> path_exists s dst"
    using assms by (auto simp: download_file_def)
  have goal: "out s' = out s @ [''Downloading '' @ dst] \<and> requests s' = requests s @ [src]
      \<and> (q \<noteq> dst \<longrightarrow> fs s' q = fs s q)"
    if "snd (download_file env src dst s) = s'" for s' q
  proof (cases "http_get env src")
    case (Inl e1)
    with absent that s2 show ?thesis
      by (auto simp: download_file_def Let_def print_line_def)
  next
    case r: (Inr r)
    show ?thesis
    proof (cases "total_size_of r")
      case (Inl e1)
      with absent that s2 r show ?thesis
        by (auto simp: download_file_def Let_def print_line_def)
    next
      case t: (Inr tot)
      show ?thesis
      proof (cases "open_wb env dst s2")
        case (Inl e1)
        have "download_file env src dst s = (Some e1, s2)"
          unfolding download_file_def Let_def s1_def [symmetric] s2_def [symmetric]
          using absent r t Inl by simp
        with that s2 show ?thesis by auto
      next
        case o: (Inr s3)
        have s3: "out s3 = out s2" "requests s3 = requests s2" "\<And>q. q \<noteq> dst \<Longrightarrow> fs s3 q = fs s2 q"
          using o by (auto simp: open_wb_def split: option.splits node.splits)
        obtain x w n s4 where wb: "write_blocks env dst (blocks r) (0, 0, s3) = (x, w, n, s4)"
          by (metis prod_cases4)
        have s4: "out s4 = out s3" "requests s4 = requests s3" "\<And>q. q \<noteq> dst \<Longrightarrow> fs s4 q = fs s3 q"
          using write_blocks_frame [of env dst "blocks r" 0 0 s3] wb by auto
        have "download_file env src dst s =
            (case x of
               Some e \<Rightarrow> (Some e, s4)
             | None \<Rightarrow>
                 (case stream_error r of
                    Some e \<Rightarrow> (Some e, s4)
                  | None \<Rightarrow>
                      if tot \<noteq> 0 \<and> w \<noteq> tot
                      then (None, print_line error_message s4) else (None, s4)))"
          unfolding download_file_def Let_def s1_def [symmetric] s2_def [symmetric]
          using absent r t o wb by (simp split: option.splits)
        with assms that have "s' = s4"
          by (auto split: option.splits if_splits)
        with s2 s3 s4 show ?thesis by simp
      qed
    qed
  qed
  show "new_output s (snd (download_file env src dst s)) = [''Downloading '' @ dst]"
    using goal [OF refl] by (simp add: new_output_def)
  show "requests (snd (download_file env src dst s)) = requests s @ [src]"
    using goal [OF refl] by simp
  show "q \<noteq> dst \<Longrightarrow> fs (snd (download_file env src dst s)) q = fs s q"
    using goal [OF refl, of q] by simp
qed


lemma download_file_before_open:
  assumes "\<not> path_exists s dst"
    and "http_get env src = Inl e
         \<or> (\<exists>r. http_get env src = Inr r \<and> total_size_of r = Inl e)
         \<or> (\<exists>r tot. http_get env src = Inr r \<and> total_size_of r = Inr tot
               \<and> open_wb_error env dst = Some e)"
  shows "download_file env src dst s =
           (Some e, s\<lparr>out := out s @ [''Downloading '' @ dst],
                      requests := requests s @ [src]\<rparr>)"
proof -
  have "fs s dst = None" using assms(1) by (simp add: path_exists_def)
  then show ?thesis
    using assms
    by (auto simp: download_file_def Let_def open_wb_def print_line_def)
qed

lemma download_file_after_open:
  assumes "\<not> path_exists s dst" and "http_get env src = Inr r"
    and "total_size_of r = Inr tot" and "open_wb_error env dst = None"
  shows "\<exists>x w s4.
      download_file env src dst s =
        (case x of
           Some e \<Rightarrow> (Some e, s4)
         | None \<Rightarrow>
             (case stream_error r of
                Some e \<Rightarrow> (Some e, s4)
              | None \<Rightarrow>
                  if tot \<noteq> 0 \<and> w \<noteq> tot
                  then (None, print_line error_message s4) else (None, s4)))
      \<and> out s4 = out s @ [''Downloading '' @ dst]
      \<and> requests s4 = requests s @ [src]
      \<and> vars s4 = vars s \<and> loaded s4 = loaded s
      \<and> (\<forall>q. q \<noteq> dst \<longrightarrow> fs s4 q = fs s q)
      \<and> fs s4 dst \<noteq> None
      \<and> (x = None \<longleftrightarrow> writes_succeed env dst [] (blocks r))
      \<and> (x = None \<longrightarrow> w = int (length (concat (blocks r)))
            \<and> fs s4 dst = Some (File (concat (blocks r))))"
proof -
  define s1 where "s1 = print_line (''Downloading '' @ dst) s"
  define s2 where "s2 = s1\<lparr>requests := requests s1 @ [src]\<rparr>"
  define s3 where "s3 = s2\<lparr>fs := (fs s2)(dst \<mapsto> File [])\<rparr>"
  have absent: "fs s2 dst = None"
    using assms(1) by (simp add: path_exists_def s2_def s1_def print_line_def)
  have op: "open_wb env dst s2 = Inr s3"
    using absent assms(4) by (simp add: open_wb_def s3_def)
  have s3: "out s3 = out s @ [''Downloading '' @ dst]" "requests s3 = requests s @ [src]"
    "vars s3 = vars s" "loaded s3 = loaded s" "\<And>q. q \<noteq> dst \<Longrightarrow> fs s3 q = fs s q"
    "fs s3 dst = Some (File [])"
    by (simp_all add: s3_def s2_def s1_def print_line_def)
  obtain x w n s4 where wb: "write_blocks env dst (blocks r) (0, 0, s3) = (x, w, n, s4)"
    by (metis prod_cases4)
  have eq: "download_file env src dst s =
        (case x of
           Some e \<Rightarrow> (Some e, s4)
         | None \<Rightarrow>
             (case stream_error r of
                Some e \<Rightarrow> (Some e, s4)
              | None \<Rightarrow>
                  if tot \<noteq> 0 \<and> w \<noteq> tot
                  then (None, print_line error_message s4) else (None, s4)))"
    unfolding download_file_def Let_def s1_def [symmetric] s2_def [symmetric]
    using assms(1-3) op wb by (simp split: option.splits)
  have s4: "out s4 = out s3" "requests s4 = requests s3" "vars s4 = vars s3"
    "loaded s4 = loaded s3" "\<And>q. q \<noteq> dst \<Longrightarrow> fs s4 q = fs s3 q" "fs s4 dst \<noteq> None"
    using write_blocks_frame [of env dst "blocks r" 0 0 s3] wb s3(6) by auto
  have ok: "x = None \<and> w = int (length (concat (blocks r)))
      \<and> fs s4 dst = Some (File (concat (blocks r)))"
    if "writes_succeed env dst [] (blocks r)"
    using write_blocks_succeed [OF s3(6) that, of 0 0] wb by simp
  have bad: "x \<noteq> None" if "\<not> writes_succeed env dst [] (blocks r)"
    using write_blocks_fail [OF s3(6) that, of 0 0] wb by auto
  show ?thesis
    using eq s3 s4 ok bad by (intro exI [of _ x] exI [of _ w] exI [of _ s4]) auto
qed

lemma download_file_returns_exists:
  assumes "fst (download_file env src dst s) = None"
  shows "path_exists (snd (download_file env src dst s)) dst"
proof (cases "path_exists s dst")
  case True
  then show ?thesis
    by (simp add: download_file_existing path_exists_def print_line_def)
next
  case False
  from assms False obtain r where r: "http_get env src = Inr r"
    by (cases "http_get env src") (auto simp: download_file_before_open)
  from assms False r obtain tot where t: "total_size_of r = Inr tot"
    by (cases "total_size_of r") (auto simp: download_file_before_open)
  from assms False r t have o: "open_wb_error env dst = None"
    by (cases "open_wb_error env dst") (auto simp: download_file_before_open)
  from download_file_after_open [OF False r t o] assms show ?thesis
    by (auto simp: path_exists_def print_line_def split: option.splits if_splits)
qed

lemma download_file_output:
  "new_output s (snd (download_file env src dst s)) =
     (if path_exists s dst then [''File '' @ dst @ '' already exists'']
      else [''Downloading '' @ dst] @
        (case http_get env src of
           Inl e \<Rightarrow> []
         | Inr r \<Rightarrow>
             (case total_size_of r of
                Inl e \<Rightarrow> []
              | Inr tot \<Rightarrow>
                  if open_wb_error env dst = None \<and> writes_succeed env dst [] (blocks r)
                     \<and> stream_error r = None
                     \<and> tot \<noteq> 0 \<and> int (length (concat (blocks r))) \<noteq> tot
                  then [error_message] else [])))"
proof (cases "path_exists s dst")
  case True
  then show ?thesis
    by (simp add: download_file_existing new_output_def print_line_def)
next
  case absent: False
  show ?thesis
  proof (cases "fst (download_file env src dst s)")
    case (Some e)
    have out: "new_output s (snd (download_file env src dst s)) = [''Downloading '' @ dst]"
      using Some by (rule download_file_raised)
    have "\<not> (open_wb_error env dst = None \<and> writes_succeed env dst [] (blocks r)
        \<and> stream_error r = None)"
      if "http_get env src = Inr r" "total_size_of r = Inr tot" for r tot
    proof
      assume a: "open_wb_error env dst = None \<and> writes_succeed env dst [] (blocks r)
        \<and> stream_error r = None"
      then have "fst (download_file env src dst s) = None"
        using download_file_fetch [OF absent that] by simp
      with Some show False by simp
    qed
    then have "\<not> (open_wb_error env dst = None \<and> writes_succeed env dst [] (blocks r)
        \<and> stream_error r = None \<and> tot \<noteq> 0 \<and> int (length (concat (blocks r))) \<noteq> tot)"
      if "http_get env src = Inr r" "total_size_of r = Inr tot" for r tot
      using that by blast
    note key = this
    show ?thesis
    proof (cases "http_get env src")
      case (Inl e1)
      with out absent show ?thesis by simp
    next
      case r: (Inr r)
      show ?thesis
      proof (cases "total_size_of r")
        case (Inl e1)
        with out absent r show ?thesis by simp
      next
        case (Inr tot)
        with out absent r key [OF r Inr] show ?thesis by simp
      qed
    qed
  next
    case None
    from None absent obtain r where r: "http_get env src = Inr r"
      by (cases "http_get env src") (auto simp: download_file_before_open)
    from None absent r obtain tot where t: "total_size_of r = Inr tot"
      by (cases "total_size_of r") (auto simp: download_file_before_open)
    from None absent r t have o: "open_wb_error env dst = None"
      by (cases "open_wb_error env dst") (auto simp: download_file_before_open)
    from download_file_after_open [OF absent r t o] None
    have w: "writes_succeed env dst [] (blocks r)" and se: "stream_error r = None"
      by (auto split: option.splits if_splits)
    show ?thesis
      using download_file_fetch [OF absent r t o w] absent r t o w se
      by (simp add: new_output_def)
  qed
qed

section \<open>Claims about download_file\<close>

text \<open>
  Claim C4. When the response carries no \<^verbatim>\<open>content-length\<close> header, so that
  \<^verbatim>\<open>total_size\<close> is 0, \<open>download_file\<close> never prints the error message, however many
  bytes it wrote: the comparison is guarded by \<^verbatim>\<open>total_size != 0\<close>. The theorem takes
  any response whose \<^verbatim>\<open>total_size\<close> is 0 (no header, or a header saying 0) and any
  body; when the transfer runs and every write succeeds, the file holds every block
  delivered and the call ends as the iterator does: normally, or with the exception
  the iterator raised.
\<close>

theorem download_file_no_length_no_error:
  assumes "http_get env src = Inr r" and "total_size_of r = Inr 0"
  shows "error_message \<notin> set (new_output s (snd (download_file env src dst s)))
       \<and> (\<not> path_exists s dst \<and> open_wb_error env dst = None
            \<and> writes_succeed env dst [] (blocks r) \<longrightarrow>
            fst (download_file env src dst s) = stream_error r \<and>
            fs (snd (download_file env src dst s)) dst = Some (File (concat (blocks r))))"
proof -
  have "error_message \<notin> set (new_output s (snd (download_file env src dst s)))"
  proof -
    have "new_output s (snd (download_file env src dst s)) =
       (if path_exists s dst then [''File '' @ dst @ '' already exists'']
        else [''Downloading '' @ dst])"
      by (simp add: download_file_output assms split: option.splits)
    then show ?thesis
      by (simp add: error_message_def)
  qed
  moreover have "fst (download_file env src dst s) = stream_error r \<and>
      fs (snd (download_file env src dst s)) dst = Some (File (concat (blocks r)))"
    if "\<not> path_exists s dst" and "open_wb_error env dst = None"
      and "writes_succeed env dst [] (blocks r)"
    using download_file_fetch [OF that(1) assms that(2,3)] by (simp split: option.splits)
  ultimately show ?thesis by blast
qed

theorem download_file_no_length_no_error_witness:
  "http_get (sample_env NoHeader [[1, 2, 3], [4]]) src_url
     = Inr \<lparr>header = NoHeader, blocks = [[1, 2, 3], [4]], stream_error = None\<rparr>
   \<and> total_size_of \<lparr>header = NoHeader, blocks = [[1, 2, 3], [4]], stream_error = None\<rparr> = Inr 0
   \<and> \<not> path_exists fresh_state dst_fn
   \<and> error_message \<notin> set (new_output fresh_state
        (snd (download_file (sample_env NoHeader [[1, 2, 3], [4]]) src_url dst_fn fresh_state)))
   \<and> fs (snd (download_file (sample_env NoHeader [[1, 2, 3], [4]]) src_url dst_fn fresh_state)) dst_fn
       = Some (File [1, 2, 3, 4])"
proof -
  have g: "http_get (sample_env NoHeader [[1, 2, 3], [4]]) src_url
     = Inr \<lparr>header = NoHeader, blocks = [[1, 2, 3], [4]], stream_error = None\<rparr>"
    by (simp add: sample_env_def)
  have z: "total_size_of \<lparr>header = NoHeader, blocks = [[1, 2, 3], [4]], stream_error = None\<rparr> = Inr 0"
    by (simp add: total_size_of_def)
  have a: "\<not> path_exists fresh_state dst_fn"
    by (simp add: path_exists_def fresh_state_def)
  have b: "open_wb_error (sample_env NoHeader [[1, 2, 3], [4]]) dst_fn = None"
    by (simp add: sample_env_def)
  have c: "writes_succeed (sample_env NoHeader [[1, 2, 3], [4]]) dst_fn [] [[1, 2, 3], [4]]"
    by (simp add: sample_env_def)
  show ?thesis
    using download_file_no_length_no_error [OF g z, of fresh_state dst_fn] g z a b c by simp
qed


text \<open>
  Claim C8. If \<^verbatim>\<open>dst_fn\<close> already exists, \<open>download_file\<close> prints one line and
  returns: the list of requests, the file system, the globals and the loaded modules
  are what they were. After any call that returned normally the file exists, so a
  second call with the same arguments only prints that line.
\<close>

theorem download_file_existing_noop:
  assumes "path_exists s dst"
  shows "download_file env src dst s
           = (None, print_line (''File '' @ dst @ '' already exists'') s)
       \<and> fs (snd (download_file env src dst s)) = fs s
       \<and> requests (snd (download_file env src dst s)) = requests s
       \<and> vars (snd (download_file env src dst s)) = vars s
       \<and> loaded (snd (download_file env src dst s)) = loaded s
       \<and> (fst (download_file env src dst s0) = None \<longrightarrow>
            fst (download_file env src dst (snd (download_file env src dst s0))) = None
            \<and> fs (snd (download_file env src dst (snd (download_file env src dst s0))))
                = fs (snd (download_file env src dst s0))
            \<and> requests (snd (download_file env src dst (snd (download_file env src dst s0))))
                = requests (snd (download_file env src dst s0)))"
proof -
  have first: "download_file env src dst s
           = (None, print_line (''File '' @ dst @ '' already exists'') s)"
    using assms by (rule download_file_existing)
  have second: "fst (download_file env src dst s1) = None
      \<and> fs (snd (download_file env src dst s1)) = fs s1
      \<and> requests (snd (download_file env src dst s1)) = requests s1"
    if "path_exists s1 dst" for s1
    using download_file_existing [OF that] by (simp add: print_line_def)
  have "path_exists (snd (download_file env src dst s0)) dst"
    if "fst (download_file env src dst s0) = None"
    using that by (rule download_file_returns_exists)
  with second first show ?thesis by (simp add: print_line_def)
qed

theorem download_file_existing_noop_witness:
  "path_exists (state_with [(dst_fn, File [7])]) dst_fn
   \<and> download_file offline_env src_url dst_fn (state_with [(dst_fn, File [7])])
       = (None, print_line ''File matlab.zip already exists'' (state_with [(dst_fn, File [7])]))
   \<and> requests (snd (download_file offline_env src_url dst_fn (state_with [(dst_fn, File [7])]))) = []
   \<and> fs (snd (download_file offline_env src_url dst_fn (state_with [(dst_fn, File [7])]))) dst_fn
       = Some (File [7])"
proof -
  have e: "path_exists (state_with [(dst_fn, File [7])]) dst_fn"
    by (simp add: path_exists_def state_with_def fresh_state_def)
  show ?thesis
    using download_file_existing_noop [OF e, of offline_env src_url] e
    by (simp add: state_with_def fresh_state_def dst_fn_def print_line_def)
qed

section \<open>Claims about the download cell\<close>

lemma cell_prelude_frame:
  "fs (cell_prelude s) = fs s" "out (cell_prelude s) = out s"
  "requests (cell_prelude s) = requests s"
  "vars (cell_prelude s) ''files_exists'' = vars s ''files_exists''"
  by (simp_all add: cell_prelude_def bind_var_def import_module_def)

lemma path_exists_cell_prelude: "path_exists (cell_prelude s) p = path_exists s p"
  by (simp add: path_exists_def cell_prelude_frame)

text \<open>
  Claim C2. There is a state of the file system, the directory \<^verbatim>\<open>matlab\<close> present and
  one of the two data files missing, in which the cell reads \<^verbatim>\<open>files_exists\<close> before
  any branch has bound it: \<^verbatim>\<open>if not files_exists\<close> raises NameError and nothing is
  downloaded. The theorem shows it for every such state of a kernel in which
  \<^verbatim>\<open>files_exists\<close> is not bound: no request is made, no file changes and nothing is
  printed. Such a state exists: a directory \<^verbatim>\<open>matlab\<close> that holds the digits file only.
\<close>

theorem download_cell_unbound_files_exists:
  assumes "path_exists s matlab_dir"
    and "\<not> (path_exists s digits_fn \<and> path_exists s letters_fn)"
    and "vars s ''files_exists'' = None"
  shows "fst (download_cell env s) = Some (NameError ''files_exists'')
       \<and> fs (snd (download_cell env s)) = fs s
       \<and> requests (snd (download_cell env s)) = requests s
       \<and> out (snd (download_cell env s)) = out s"
proof -
  have c: "check_files (cell_prelude s) = cell_prelude s"
    using assms(1,2) by (auto simp: check_files_def path_exists_cell_prelude)
  have "read_var (cell_prelude s) ''files_exists'' = Inl (NameError ''files_exists'')"
    using assms(3) by (simp add: read_var_def cell_prelude_frame)
  then have "download_cell env s = (Some (NameError ''files_exists''), cell_prelude s)"
    by (simp add: download_cell_def c)
  then show ?thesis by (simp add: cell_prelude_frame)
qed

theorem download_cell_unbound_files_exists_witness:
  "path_exists (state_with [(''matlab'', Dir), (''matlab/emnist-digits.mat'', File [])]) matlab_dir
   \<and> \<not> path_exists (state_with [(''matlab'', Dir), (''matlab/emnist-digits.mat'', File [])]) letters_fn
   \<and> vars (state_with [(''matlab'', Dir), (''matlab/emnist-digits.mat'', File [])]) ''files_exists'' = None
   \<and> fst (download_cell (sample_env NoHeader [])
           (state_with [(''matlab'', Dir), (''matlab/emnist-digits.mat'', File [])]))
       = Some (NameError ''files_exists'')
   \<and> requests (snd (download_cell (sample_env NoHeader [])
           (state_with [(''matlab'', Dir), (''matlab/emnist-digits.mat'', File [])]))) = []"
proof -
  let ?s = "state_with [(''matlab'', Dir), (''matlab/emnist-digits.mat'', File [])]"
  have a: "path_exists ?s matlab_dir"
    by (simp add: path_exists_def state_with_def fresh_state_def matlab_dir_def)
  have b: "\<not> path_exists ?s letters_fn"
    by (simp add: path_exists_def state_with_def fresh_state_def letters_fn_def matlab_dir_def
        path_join_def)
  then have b': "\<not> (path_exists ?s digits_fn \<and> path_exists ?s letters_fn)" by simp
  have c: "vars ?s ''files_exists'' = None"
    by (simp add: state_with_def fresh_state_def)
  have d: "requests ?s = []"
    by (simp add: state_with_def fresh_state_def)
  show ?thesis
    using download_cell_unbound_files_exists [OF a b' c, of "sample_env NoHeader []"] a b c d
    by simp
qed

section \<open>Failure handling\<close>







section \<open>Claims about load_emnist\<close>

lemma label_field_parts:
  assumes "label_field mat path n = Inr y"
  shows "\<exists>a. dataset_field mat path = Inr a \<and> size_of a = n \<and> astype_int (flatten a) = Inr y"
  using assms
  by (auto simp: label_field_def reshape_def split: sum.splits if_splits)

lemma astype_int_flatten_length:
  assumes "astype_int (flatten a) = Inr y"
  shows "\<exists>v. y = IntVector v \<and> length v = size_of a"
  using assms by (cases a) auto

lemma label_field_shape:
  assumes "label_field mat path n = Inr y"
  shows "\<exists>v. y = IntVector v \<and> length v = n"
  using label_field_parts [OF assms] astype_int_flatten_length by blast

lemma load_emnist_steps:
  assumes "load_emnist env p s = (Inr res, s')"
  shows "\<exists>mat Xtr Xts ytr yts ntr nts.
           loadmat env p (fs s) = Inr mat
         \<and> dataset_field mat [0, 0, 0, 0, 0, 0] = Inr Xtr \<and> shape0 Xtr = Inr ntr
         \<and> label_field mat [0, 0, 0, 0, 0, 1] ntr = Inr ytr
         \<and> dataset_field mat [0, 0, 1, 0, 0, 0] = Inr Xts \<and> shape0 Xts = Inr nts
         \<and> label_field mat [0, 0, 1, 0, 0, 1] nts = Inr yts
         \<and> res = [Xtr, Xts, ytr, yts]
         \<and> s' = print_line (str_nat ntr @ '' training samples, '' @ str_nat nts
                       @ '' test samples loaded'') s"
  using assms
  by (simp add: load_emnist_def split: sum.splits)

lemma load_emnist_run:
  assumes "loadmat env p (fs s) = Inr mat"
    and "dataset_field mat [0, 0, 0, 0, 0, 0] = Inr Xtr" and "shape0 Xtr = Inr ntr"
    and "label_field mat [0, 0, 0, 0, 0, 1] ntr = Inr ytr"
    and "dataset_field mat [0, 0, 1, 0, 0, 0] = Inr Xts" and "shape0 Xts = Inr nts"
    and "label_field mat [0, 0, 1, 0, 0, 1] nts = Inr yts"
  shows "load_emnist env p s =
           (Inr [Xtr, Xts, ytr, yts],
            print_line (str_nat ntr @ '' training samples, '' @ str_nat nts
                        @ '' test samples loaded'') s)"
  using assms by (simp add: load_emnist_def)

lemma load_emnist_fst:
  "fst (load_emnist env p s) =
     (case loadmat env p (fs s) of
        Inl e \<Rightarrow> Inl e
      | Inr mat \<Rightarrow>
     (case dataset_field mat [0, 0, 0, 0, 0, 0] of
        Inl e \<Rightarrow> Inl e
      | Inr Xtr \<Rightarrow>
     (case shape0 Xtr of
        Inl e \<Rightarrow> Inl e
      | Inr ntr \<Rightarrow>
     (case label_field mat [0, 0, 0, 0, 0, 1] ntr of
        Inl e \<Rightarrow> Inl e
      | Inr ytr \<Rightarrow>
     (case dataset_field mat [0, 0, 1, 0, 0, 0] of
        Inl e \<Rightarrow> Inl e
      | Inr Xts \<Rightarrow>
     (case shape0 Xts of
        Inl e \<Rightarrow> Inl e
      | Inr nts \<Rightarrow>
     (case label_field mat [0, 0, 1, 0, 0, 1] nts of
        Inl e \<Rightarrow> Inl e
      | Inr yts \<Rightarrow> Inr [Xtr, Xts, ytr, yts])))))))"
  by (simp add: load_emnist_def split: sum.splits)

lemma load_emnist_frame:
  "fs (snd (load_emnist env p s)) = fs s"
  "requests (snd (load_emnist env p s)) = requests s"
  "vars (snd (load_emnist env p s)) = vars s"
  by (simp_all add: load_emnist_def print_line_def split: sum.splits)

text \<open>
  Claim C6. \<open>load_emnist\<close> does no parsing of its own: what it returns is the
  extraction of the four nested fields from the dictionary \<^verbatim>\<open>loadmat\<close> gave, the two
  label arrays flattened and cast to int, as the list \<^verbatim>\<open>[Xtr, Xts, ytr, yts]\<close>.
  Whenever \<open>load_emnist\<close> returns, its result is \<open>extract_fields\<close> of that dictionary;
  its outcome depends on the file and the path through the dictionary alone; it
  returns every extraction whose label arrays have as many elements as the image
  arrays have rows (the size the code passes to \<^verbatim>\<open>reshape\<close>); and it writes no file,
  makes no request and binds no global.
\<close>

theorem load_emnist_is_field_extraction:
  "(load_emnist env p s = (Inr res, s') \<longrightarrow>
      (\<exists>mat. loadmat env p (fs s) = Inr mat \<and> extract_fields mat = Some res))
   \<and> (loadmat env p (fs s) = loadmat env' p' (fs t) \<longrightarrow>
        fst (load_emnist env p s) = fst (load_emnist env' p' t))
   \<and> (loadmat env p (fs s) = Inr m
        \<and> extract_fields m = Some [Xtr, Xts, IntVector ytr, IntVector yts]
        \<and> shape0 Xtr = Inr (length ytr) \<and> shape0 Xts = Inr (length yts) \<longrightarrow>
        fst (load_emnist env p s) = Inr [Xtr, Xts, IntVector ytr, IntVector yts])
   \<and> fs (snd (load_emnist env p s)) = fs s
   \<and> requests (snd (load_emnist env p s)) = requests s
   \<and> vars (snd (load_emnist env p s)) = vars s"
proof -
  have conv: "fst (load_emnist env p s) = Inr [Xtr, Xts, IntVector ytr, IntVector yts]"
    if m: "loadmat env p (fs s) = Inr m"
      and ex: "extract_fields m = Some [Xtr, Xts, IntVector ytr, IntVector yts]"
      and n1: "shape0 Xtr = Inr (length ytr)" and n2: "shape0 Xts = Inr (length yts)"
  proof -
    from ex obtain a b where
      xtr: "dataset_field m [0, 0, 0, 0, 0, 0] = Inr Xtr"
      and xts: "dataset_field m [0, 0, 1, 0, 0, 0] = Inr Xts"
      and a: "dataset_field m [0, 0, 0, 0, 0, 1] = Inr a"
        "astype_int (flatten a) = Inr (IntVector ytr)"
      and b: "dataset_field m [0, 0, 1, 0, 0, 1] = Inr b"
        "astype_int (flatten b) = Inr (IntVector yts)"
      by (auto simp: extract_fields_def nested_field_def flat_int_def Option.bind_eq_Some_conv
          split: option.splits sum.splits)
    have "size_of a = length ytr" "size_of b = length yts"
      using astype_int_flatten_length [OF a(2)] astype_int_flatten_length [OF b(2)] by auto
    then have "label_field m [0, 0, 0, 0, 0, 1] (length ytr) = Inr (IntVector ytr)"
      "label_field m [0, 0, 1, 0, 0, 1] (length yts) = Inr (IntVector yts)"
      using a b by (simp_all add: label_field_def reshape_def)
    then show ?thesis
      using m xtr xts n1 n2 by (simp add: load_emnist_fst)
  qed
  have refine: "\<exists>mat. loadmat env p (fs s) = Inr mat \<and> extract_fields mat = Some res"
    if run: "load_emnist env p s = (Inr res, s')"
  proof -
    from load_emnist_steps [OF run] obtain mat Xtr Xts ytr yts ntr nts where
      m: "loadmat env p (fs s) = Inr mat"
      and xtr: "dataset_field mat [0, 0, 0, 0, 0, 0] = Inr Xtr"
      and ytr: "label_field mat [0, 0, 0, 0, 0, 1] ntr = Inr ytr"
      and xts: "dataset_field mat [0, 0, 1, 0, 0, 0] = Inr Xts"
      and yts: "label_field mat [0, 0, 1, 0, 0, 1] nts = Inr yts"
      and res: "res = [Xtr, Xts, ytr, yts]"
      by blast
    from label_field_parts [OF ytr] obtain a where
      a: "dataset_field mat [0, 0, 0, 0, 0, 1] = Inr a" "astype_int (flatten a) = Inr ytr"
      by blast
    from label_field_parts [OF yts] obtain b where
      b: "dataset_field mat [0, 0, 1, 0, 0, 1] = Inr b" "astype_int (flatten b) = Inr yts"
      by blast
    have "extract_fields mat = Some res"
      using xtr xts a b res
      by (simp add: extract_fields_def nested_field_def flat_int_def)
    with m show ?thesis by blast
  qed
  have same: "fst (load_emnist env p s) = fst (load_emnist env' p' t)"
    if "loadmat env p (fs s) = loadmat env' p' (fs t)"
    using that by (simp add: load_emnist_fst)
  show ?thesis
    using refine same conv by (simp add: load_emnist_frame)
qed

theorem load_emnist_is_field_extraction_witness:
  "load_emnist (sample_env NoHeader []) ''emnist-digits.mat''
       (state_with [(''emnist-digits.mat'', File [])])
     = (Inr [Matrix sample_images, Matrix [[9, 9, 9]], IntVector [3, 7], IntVector [2]],
        print_line ''2 training samples, 1 test samples loaded''
          (state_with [(''emnist-digits.mat'', File [])]))
   \<and> loadmat (sample_env NoHeader []) ''emnist-digits.mat''
         (fs (state_with [(''emnist-digits.mat'', File [])])) = Inr sample_mat
   \<and> extract_fields sample_mat
       = Some [Matrix sample_images, Matrix [[9, 9, 9]], IntVector [3, 7], IntVector [2]]"
proof -
  let ?env = "sample_env NoHeader []"
  let ?s = "state_with [(''emnist-digits.mat'', File [])]"
  let ?res = "[Matrix sample_images, Matrix [[9, 9, 9]], IntVector [3, 7], IntVector [2]]"
  have m: "loadmat ?env ''emnist-digits.mat'' (fs ?s) = Inr sample_mat"
    by (simp add: sample_env_def state_with_def fresh_state_def)
  have f: "dataset_field sample_mat [0, 0, 0, 0, 0, 0] = Inr (Matrix sample_images)"
    "dataset_field sample_mat [0, 0, 1, 0, 0, 0] = Inr (Matrix [[9, 9, 9]])"
    "dataset_field sample_mat [0, 0, 0, 0, 0, 1] = Inr (Matrix [[3], [7]])"
    "dataset_field sample_mat [0, 0, 1, 0, 0, 1] = Inr (Matrix [[5 / 2]])"
    by (simp_all add: dataset_field_def sample_mat_def sample_part_def)
  have tr: "trunc 3 = 3" "trunc 7 = 7" "trunc (5 / 2) = 2"
    by (simp_all add: trunc_def Let_def floor_divide_of_int_eq [of 5 2, simplified])
  have l: "label_field sample_mat [0, 0, 0, 0, 0, 1] 2 = Inr (IntVector [3, 7])"
    "label_field sample_mat [0, 0, 1, 0, 0, 1] 1 = Inr (IntVector [2])"
    using f by (simp_all add: label_field_def reshape_def tr)
  have n: "str_nat 2 = ''2''" "str_nat 1 = ''1''"
    by (simp_all add: str_nat.simps)
  have sh: "shape0 (Matrix sample_images) = Inr 2" "shape0 (Matrix [[9, 9, 9]]) = Inr 1"
    by (simp_all add: sample_images_def)
  have run: "load_emnist ?env ''emnist-digits.mat'' ?s
     = (Inr ?res, print_line ''2 training samples, 1 test samples loaded'' ?s)"
    using load_emnist_run [OF m f(1) sh(1) l(1) f(2) sh(2) l(2)] n by simp
  from load_emnist_is_field_extraction [of ?env "''emnist-digits.mat''" ?s ?res
      "print_line ''2 training samples, 1 test samples loaded'' ?s"] run
  have "\<exists>mat. loadmat ?env ''emnist-digits.mat'' (fs ?s) = Inr mat \<and> extract_fields mat = Some ?res"
    by blast
  with m have "extract_fields sample_mat = Some ?res" by simp
  with run m show ?thesis by simp
qed

section \<open>The shape of the data\<close>

lemma remove_letters_shape: "well_shaped (remove_letters rl d)"
  by (simp add: well_shaped_def remove_letters_def Let_def)

lemma subsample_shape:
  "subsample idx d = Inr d' \<Longrightarrow> well_shaped d' \<and> length (fst d') = length idx"
  by (auto simp: subsample_def well_shaped_def split: if_splits)

lemma merge_shape: "well_shaped dg \<Longrightarrow> well_shaped lt \<Longrightarrow> well_shaped (merge dg lt)"
  by (simp add: well_shaped_def merge_def merge_labels_def)

lemma rescale_shape: "well_shaped d \<Longrightarrow> well_shaped (rescale_dataset d)"
  by (simp add: well_shaped_def rescale_dataset_def rescale_def)

text \<open>
  Claim C5. A data set is a matrix of pixel values with a label vector that has one
  entry for each row. \<open>load_emnist\<close> returns label vectors reshaped to the number of
  rows of the image arrays: whenever it returns, the third and fourth element of its
  list are integer vectors as long as the first and second have rows. Letter removal,
  subsampling, merging and rescaling, as the notebook asks for them, keep the label
  vector as long as the matrix has rows.
\<close>

theorem datasets_well_shaped:
  "(load_emnist env p s = (Inr res, s') \<longrightarrow>
      (\<exists>Xtr Xts ytr yts. res = [Xtr, Xts, IntVector ytr, IntVector yts]
         \<and> shape0 Xtr = Inr (length ytr) \<and> shape0 Xts = Inr (length yts)))
   \<and> (load_emnist env p s = (Inr [Matrix A, Matrix B, IntVector ya, IntVector yb], s') \<longrightarrow>
        well_shaped (A, ya) \<and> well_shaped (B, yb))
   \<and> (well_shaped d \<longrightarrow> well_shaped (remove_letters rl d))
   \<and> (subsample idx d = Inr d' \<longrightarrow> well_shaped d' \<and> length (fst d') = length idx)
   \<and> (well_shaped dg \<and> well_shaped lt \<longrightarrow> well_shaped (merge dg lt))
   \<and> (well_shaped d \<longrightarrow> well_shaped (rescale_dataset d))"
proof -
  have loaded: "\<exists>Xtr Xts ytr yts. r = [Xtr, Xts, IntVector ytr, IntVector yts]
         \<and> shape0 Xtr = Inr (length ytr) \<and> shape0 Xts = Inr (length yts)"
    if run: "load_emnist env p s = (Inr r, s')" for r
  proof -
    from load_emnist_steps [OF run] obtain mat Xtr Xts ytr yts ntr nts where
      st: "shape0 Xtr = Inr ntr" "label_field mat [0, 0, 0, 0, 0, 1] ntr = Inr ytr"
        "shape0 Xts = Inr nts" "label_field mat [0, 0, 1, 0, 0, 1] nts = Inr yts"
        "r = [Xtr, Xts, ytr, yts]"
      by blast
    from label_field_shape [OF st(2)] obtain v where v: "ytr = IntVector v" "length v = ntr"
      by blast
    from label_field_shape [OF st(4)] obtain w where w: "yts = IntVector w" "length w = nts"
      by blast
    show ?thesis using st v w by simp
  qed
  have "well_shaped (A, ya) \<and> well_shaped (B, yb)"
    if "load_emnist env p s = (Inr [Matrix A, Matrix B, IntVector ya, IntVector yb], s')"
    using loaded [OF that] by (auto simp: well_shaped_def)
  with loaded show ?thesis
    using remove_letters_shape subsample_shape merge_shape rescale_shape by blast
qed

theorem datasets_well_shaped_witness:
  "load_emnist (sample_env NoHeader []) ''emnist-digits.mat''
       (state_with [(''emnist-digits.mat'', File [])])
     = (Inr [Matrix sample_images, Matrix [[9, 9, 9]], IntVector [3, 7], IntVector [2]],
        print_line ''2 training samples, 1 test samples loaded''
          (state_with [(''emnist-digits.mat'', File [])]))
   \<and> well_shaped (sample_images, [3, 7]) \<and> well_shaped ([[9, 9, 9]], [2])
   \<and> well_shaped ([[1], [2], [3]], [9, 4, 15])
   \<and> remove_letters [9, 12, 15] ([[1], [2], [3]], [9, 4, 15]) = ([[2]], [4])
   \<and> well_shaped (remove_letters [9, 12, 15] ([[1], [2], [3]], [9, 4, 15]))
   \<and> subsample [1, 0, 1] (sample_images, [3, 7])
       = Inr ([[128, 7, 0], [0, 255, 51], [128, 7, 0]], [7, 3, 7])
   \<and> well_shaped ([[128, 7, 0], [0, 255, 51], [128, 7, 0]], [7, 3, 7])
   \<and> well_shaped (merge (sample_images, [3, 7]) ([[2]], [4]))
   \<and> well_shaped (rescale_dataset (sample_images, [3, 7]))"
proof -
  let ?env = "sample_env NoHeader []"
  let ?s = "state_with [(''emnist-digits.mat'', File [])]"
  let ?s' = "print_line ''2 training samples, 1 test samples loaded'' ?s"
  have run: "load_emnist ?env ''emnist-digits.mat'' ?s
     = (Inr [Matrix sample_images, Matrix [[9, 9, 9]], IntVector [3, 7], IntVector [2]], ?s')"
  proof -
    have m: "loadmat ?env ''emnist-digits.mat'' (fs ?s) = Inr sample_mat"
      by (simp add: sample_env_def state_with_def fresh_state_def)
    have f: "dataset_field sample_mat [0, 0, 0, 0, 0, 0] = Inr (Matrix sample_images)"
      "dataset_field sample_mat [0, 0, 1, 0, 0, 0] = Inr (Matrix [[9, 9, 9]])"
      "dataset_field sample_mat [0, 0, 0, 0, 0, 1] = Inr (Matrix [[3], [7]])"
      "dataset_field sample_mat [0, 0, 1, 0, 0, 1] = Inr (Matrix [[5 / 2]])"
      by (simp_all add: dataset_field_def sample_mat_def sample_part_def)
    have tr: "trunc 3 = 3" "trunc 7 = 7" "trunc (5 / 2) = 2"
      by (simp_all add: trunc_def Let_def floor_divide_of_int_eq [of 5 2, simplified])
    have l: "label_field sample_mat [0, 0, 0, 0, 0, 1] 2 = Inr (IntVector [3, 7])"
      "label_field sample_mat [0, 0, 1, 0, 0, 1] 1 = Inr (IntVector [2])"
      using f by (simp_all add: label_field_def reshape_def tr)
    have n: "str_nat 2 = ''2''" "str_nat 1 = ''1''"
      by (simp_all add: str_nat.simps)
    have sh: "shape0 (Matrix sample_images) = Inr 2" "shape0 (Matrix [[9, 9, 9]]) = Inr 1"
      by (simp_all add: sample_images_def)
    show ?thesis
      using load_emnist_run [OF m f(1) sh(1) l(1) f(2) sh(2) l(2)] n by simp
  qed
  have w1: "well_shaped ([[1], [2], [3]], [9, 4, 15])"
    by (simp add: well_shaped_def)
  have sub: "subsample [1, 0, 1] (sample_images, [3, 7])
       = Inr ([[128, 7, 0], [0, 255, 51], [128, 7, 0]], [7, 3, 7])"
    by (simp add: subsample_def sample_images_def)
  have rem: "remove_letters [9, 12, 15] ([[1], [2], [3]], [9, 4, 15]) = ([[2]], [4])"
    by (simp add: remove_letters_def)
  have w2: "well_shaped ([[2]], [4])"
    by (simp add: well_shaped_def)
  note a = datasets_well_shaped [where env = ?env and p = "''emnist-digits.mat''" and s = ?s
      and s' = ?s' and A = sample_images and B = "[[9, 9, 9]]" and ya = "[3, 7]" and yb = "[2]"
      and d = "([[1], [2], [3]], [9, 4, 15])" and rl = "[9, 12, 15]"]
  note b = datasets_well_shaped [where idx = "[1, 0, 1]" and d = "(sample_images, [3, 7])"
      and d' = "([[128, 7, 0], [0, 255, 51], [128, 7, 0]], [7, 3, 7])"
      and dg = "(sample_images, [3, 7])" and lt = "([[2]], [4])"]
  have c1: "well_shaped (sample_images, [3, 7]) \<and> well_shaped ([[9, 9, 9]], [2])"
    using a run by blast
  have c2: "well_shaped (remove_letters [9, 12, 15] ([[1], [2], [3]], [9, 4, 15]))"
    using a w1 by blast
  have c3: "well_shaped ([[128, 7, 0], [0, 255, 51], [128, 7, 0]], [7, 3, 7])"
    using b sub by blast
  have c4: "well_shaped (merge (sample_images, [3, 7]) ([[2]], [4]))"
    using b c1 w2 by blast
  have c5: "well_shaped (rescale_dataset (sample_images, [3, 7]))"
    using b c1 by blast
  show ?thesis
    using run c1 c2 c3 c4 c5 w1 sub rem by simp
qed

section \<open>Claims about the cells marked TODO\<close>

lemma exec_stmt_frame:
  "fs (snd (exec_stmt st s)) = fs s" "out (snd (exec_stmt st s)) = out s"
  "requests (snd (exec_stmt st s)) = requests s"
  by (cases st; simp add: bind_var_def import_module_def split: sum.splits)+

lemma exec_stmt_vars:
  "x \<notin> set (target st) \<Longrightarrow> vars (snd (exec_stmt st s)) x = vars s x"
  by (cases st) (auto simp: bind_var_def import_module_def split: sum.splits)

lemma exec_stmt_loaded:
  "\<not> is_import st \<Longrightarrow> loaded (snd (exec_stmt st s)) = loaded s"
  by (cases st) (auto simp: bind_var_def split: sum.splits)

lemma exec_cell_step:
  "snd (exec_cell (st # rest) s) =
     (case fst (exec_stmt st s) of
        Some e \<Rightarrow> snd (exec_stmt st s)
      | None \<Rightarrow> snd (exec_cell rest (snd (exec_stmt st s))))"
  by (simp split: prod.splits option.splits)

lemma exec_cell_frame:
  "fs (snd (exec_cell c s)) = fs s \<and> out (snd (exec_cell c s)) = out s
   \<and> requests (snd (exec_cell c s)) = requests s"
proof (induction c arbitrary: s)
  case Nil
  show ?case by simp
next
  case (Cons st rest)
  show ?case
    unfolding exec_cell_step
    by (cases "fst (exec_stmt st s)") (simp_all add: exec_stmt_frame Cons.IH)
qed

lemma exec_cell_vars:
  "x \<notin> set (concat (map target c)) \<Longrightarrow> vars (snd (exec_cell c s)) x = vars s x"
proof (induction c arbitrary: s)
  case Nil
  show ?case by simp
next
  case (Cons st rest)
  then have a: "x \<notin> set (target st)" and b: "x \<notin> set (concat (map target rest))"
    by simp_all
  show ?case
    unfolding exec_cell_step
    by (cases "fst (exec_stmt st s)") (simp_all add: exec_stmt_vars [OF a] Cons.IH [OF b])
qed

lemma exec_cell_loaded:
  "list_all (\<lambda>st. \<not> is_import st) c \<Longrightarrow> loaded (snd (exec_cell c s)) = loaded s"
proof (induction c arbitrary: s)
  case Nil
  show ?case by simp
next
  case (Cons st rest)
  then have a: "\<not> is_import st" and b: "list_all (\<lambda>st. \<not> is_import st) rest"
    by simp_all
  show ?case
    unfolding exec_cell_step
    by (cases "fst (exec_stmt st s)") (simp_all add: exec_stmt_loaded [OF a] Cons.IH [OF b])
qed

lemma allowed_targets:
  "allowed_stmt n st \<Longrightarrow> set (target st) \<subseteq> set named_constants \<union> {''svm''}"
  by (cases st) (auto simp: allowed_stmt_def)

lemma allowed_not_import:
  "allowed_stmt n st \<Longrightarrow> n \<noteq> 9 \<Longrightarrow> \<not> is_import st \<and> set (target st) \<subseteq> set named_constants"
  by (cases st) (auto simp: allowed_stmt_def)

lemma todo_cells_allowed:
  "list_all (\<lambda>n. list_all (allowed_stmt n) (todo_cell n)) [1..<23]"
  by code_simp


text \<open>
  Claim C9 says that every cell marked \<^verbatim>\<open># TODO n\<close> holds, besides comments, only
  bindings of the named constants, and that running it changes nothing but those
  bindings. The cell of TODO 9 also holds \<^verbatim>\<open>from sklearn import svm\<close>: run on a fresh
  kernel it loads the module and binds \<^verbatim>\<open>svm\<close>, which is not one of the named
  constants.
\<close>

theorem todo_cells_constants_only_counterexample:
  "\<not> list_all comment_or_constant (todo_cell 9)
   \<and> ''svm'' \<notin> set named_constants
   \<and> vars fresh_state ''svm'' = None
   \<and> vars (snd (exec_cell (todo_cell 9) fresh_state)) ''svm'' = Some (PModule ''sklearn.svm'')
   \<and> loaded fresh_state = []
   \<and> loaded (snd (exec_cell (todo_cell 9) fresh_state)) = [''sklearn.svm'']"
  by (simp add: todo_cell_def todo_cells_def named_constants_def fresh_state_def
      import_module_def bind_var_def)

text \<open>
  Claim C9, amended. For \<open>n\<close> from 1 to 22 the cell marked \<^verbatim>\<open># TODO n\<close> holds only
  comments, assignments to the named constants and, for \<open>n = 9\<close>, the import of
  \<^verbatim>\<open>svm\<close>. Running it from any state prints nothing, makes no request and changes no
  file; every global other than the named constants and \<^verbatim>\<open>svm\<close> keeps its value; and
  unless \<open>n = 9\<close> no module is loaded and \<^verbatim>\<open>svm\<close> keeps its value too.
\<close>

theorem todo_cells_bind_constants_only:
  assumes "1 \<le> n" and "n \<le> 22"
  shows "list_all (allowed_stmt n) (todo_cell n)
       \<and> fs (snd (exec_cell (todo_cell n) s)) = fs s
       \<and> out (snd (exec_cell (todo_cell n) s)) = out s
       \<and> requests (snd (exec_cell (todo_cell n) s)) = requests s
       \<and> (\<forall>x. x \<notin> set named_constants \<and> x \<noteq> ''svm'' \<longrightarrow>
             vars (snd (exec_cell (todo_cell n) s)) x = vars s x)
       \<and> (n \<noteq> 9 \<longrightarrow>
             list_all comment_or_constant (todo_cell n)
           \<and> loaded (snd (exec_cell (todo_cell n) s)) = loaded s
           \<and> vars (snd (exec_cell (todo_cell n) s)) ''svm'' = vars s ''svm'')"
proof -
  have "n \<in> set [1..<23]" using assms by simp
  with todo_cells_allowed have ok: "list_all (allowed_stmt n) (todo_cell n)"
    unfolding list_all_iff by blast
  then have each: "allowed_stmt n st" if "st \<in> set (todo_cell n)" for st
    using that by (simp add: list_all_iff)
  have targets: "set (concat (map target (todo_cell n))) \<subseteq> set named_constants \<union> {''svm''}"
    using each allowed_targets by fastforce
  have binds: "vars (snd (exec_cell (todo_cell n) s)) x = vars s x"
    if "x \<notin> set named_constants \<and> x \<noteq> ''svm''" for x
    using targets that by (intro exec_cell_vars) blast
  have other: "list_all comment_or_constant (todo_cell n)
      \<and> loaded (snd (exec_cell (todo_cell n) s)) = loaded s
      \<and> vars (snd (exec_cell (todo_cell n) s)) ''svm'' = vars s ''svm''"
    if n9: "n \<noteq> 9"
  proof -
    have c: "comment_or_constant st" if "st \<in> set (todo_cell n)" for st
      using each [OF that] n9 by (simp add: allowed_stmt_def)
    have ni: "list_all (\<lambda>st. \<not> is_import st) (todo_cell n)"
      using each allowed_not_import [OF _ n9] by (simp add: list_all_iff)
    have "set (concat (map target (todo_cell n))) \<subseteq> set named_constants"
      using each allowed_not_import [OF _ n9] by fastforce
    moreover have "''svm'' \<notin> set named_constants"
      by (simp add: named_constants_def)
    ultimately have "''svm'' \<notin> set (concat (map target (todo_cell n)))" by blast
    then have "vars (snd (exec_cell (todo_cell n) s)) ''svm'' = vars s ''svm''"
      by (rule exec_cell_vars)
    with c ni show ?thesis
      by (simp add: list_all_iff exec_cell_loaded)
  qed
  show ?thesis
    using ok binds other exec_cell_frame [of "todo_cell n" s] by blast
qed

theorem todo_cells_bind_constants_only_witness:
  "(1::nat) \<le> 14 \<and> (14::nat) \<le> 22
   \<and> fst (exec_cell (todo_cell 14) (bind_var ''np'' (PModule ''numpy'') fresh_state)) = None
   \<and> vars (snd (exec_cell (todo_cell 14) (bind_var ''np'' (PModule ''numpy'') fresh_state))) ''acc''
       = Some (PMatrix [[0, 0, 0], [0, 0, 0], [0, 0, 0]])
   \<and> vars (snd (exec_cell (todo_cell 14) (bind_var ''np'' (PModule ''numpy'') fresh_state))) ''np''
       = Some (PModule ''numpy'')
   \<and> list_all comment_or_constant (todo_cell 14)
   \<and> fs (snd (exec_cell (todo_cell 14) (bind_var ''np'' (PModule ''numpy'') fresh_state)))
       = fs (bind_var ''np'' (PModule ''numpy'') fresh_state)
   \<and> out (snd (exec_cell (todo_cell 14) (bind_var ''np'' (PModule ''numpy'') fresh_state))) = []
   \<and> requests (snd (exec_cell (todo_cell 14) (bind_var ''np'' (PModule ''numpy'') fresh_state))) = []
   \<and> loaded (snd (exec_cell (todo_cell 14) (bind_var ''np'' (PModule ''numpy'') fresh_state))) = []"
proof -
  let ?s = "bind_var ''np'' (PModule ''numpy'') fresh_state"
  have r: "fst (exec_cell (todo_cell 14) ?s) = None"
    "vars (snd (exec_cell (todo_cell 14) ?s)) ''acc''
       = Some (PMatrix [[0, 0, 0], [0, 0, 0], [0, 0, 0]])"
    by (simp_all add: todo_cell_def todo_cells_def fresh_state_def bind_var_def numpy_bound_def
        read_var_def numeral_3_eq_3)
  have i: "out ?s = []" "requests ?s = []" "loaded ?s = []"
    "vars ?s ''np'' = Some (PModule ''numpy'')" "''np'' \<notin> set named_constants"
    by (simp_all add: fresh_state_def bind_var_def named_constants_def)
  have n: "(1::nat) \<le> 14" "(14::nat) \<le> 22" by simp_all
  show ?thesis
    using todo_cells_bind_constants_only [OF n, of ?s] r i n by simp
qed

section \<open>Claims about the merge and the rescaling\<close>



text \<open>
  Claim C7. The rescaling maps pixel values from 0 to 255 onto the range from -1 to
  1 by one affine, strictly increasing transform that sends 0 to -1 and 255 to 1, and
  applies the same transform to the training matrix and to the test matrix. It is
  the only affine map with these two values, and every value between -1 and 1 is
  the image of a value between 0 and 255.
\<close>

theorem rescale_affine_monotone:
  "rescale_value 0 = - 1 \<and> rescale_value 255 = 1
   \<and> rescale_value x = (2 / 255) * x + (- 1)
   \<and> (x < y \<longrightarrow> rescale_value x < rescale_value y)
   \<and> (0 \<le> x \<and> x \<le> 255 \<longrightarrow> - 1 \<le> rescale_value x \<and> rescale_value x \<le> 1)
   \<and> (- 1 \<le> v \<and> v \<le> 1 \<longrightarrow> (\<exists>u. 0 \<le> u \<and> u \<le> 255 \<and> rescale_value u = v))
   \<and> (a * 0 + b = - 1 \<and> a * 255 + b = 1 \<longrightarrow> a * x + b = rescale_value x)
   \<and> rescale_step Xtr Xts = (map (map rescale_value) Xtr, map (map rescale_value) Xts)"
proof -
  have onto: "\<exists>u. 0 \<le> u \<and> u \<le> 255 \<and> rescale_value u = v" if "- 1 \<le> v \<and> v \<le> 1"
  proof (intro exI conjI)
    show "0 \<le> (v + 1) * 255 / 2" using that by simp
    show "(v + 1) * 255 / 2 \<le> 255" using that by simp
    show "rescale_value ((v + 1) * 255 / 2) = v"
      by (simp add: rescale_value_def field_simps)
  qed
  have uniq: "a * x + b = rescale_value x" if "a * 0 + b = - 1 \<and> a * 255 + b = 1"
  proof -
    from that have b: "b = - 1" by simp
    with that have "a * 255 = 2" by simp
    then have "a = 2 / 255" by simp
    with b show ?thesis by (simp add: rescale_value_def)
  qed
  have mono: "rescale_value x < rescale_value y" if "x < y"
    using that by (simp add: rescale_value_def)
  have range: "- 1 \<le> rescale_value x \<and> rescale_value x \<le> 1" if "0 \<le> x \<and> x \<le> 255"
    using that by (simp add: rescale_value_def)
  have ends: "rescale_value 0 = - 1" "rescale_value 255 = 1"
    "rescale_value x = (2 / 255) * x + (- 1)"
    by (simp_all add: rescale_value_def)
  show ?thesis
    using onto uniq mono range ends by (simp add: rescale_step_def rescale_def)
qed

theorem rescale_affine_monotone_witness:
  "(0::rat) \<le> 51 \<and> (51::rat) \<le> 255 \<and> (51::rat) < 255
   \<and> rescale_value 51 = - 3 / 5
   \<and> rescale_value 51 < rescale_value 255
   \<and> - 1 \<le> rescale_value 51 \<and> rescale_value 51 \<le> 1
   \<and> rescale_step [[0, 255]] [[51]] = ([[- 1, 1]], [[- 3 / 5]])"
proof -
  note a = rescale_affine_monotone [where x = 51 and y = 255 and Xtr = "[[0, 255]]"
      and Xts = "[[51]]"]
  have v: "rescale_value 51 = - 3 / 5" "rescale_value 0 = - 1" "rescale_value 255 = 1"
    by (simp_all add: rescale_value_def)
  from a have "rescale_value 51 < rescale_value 255" by simp
  moreover from a have "- 1 \<le> rescale_value 51 \<and> rescale_value 51 \<le> 1" by simp
  moreover from a have "rescale_step [[0, 255]] [[51]]
      = (map (map rescale_value) [[0, 255]], map (map rescale_value) [[51]])" by blast
  ultimately show ?thesis using v by simp
qed

end
